theory Spec2Isabelle
  imports Complex_Main "HOL-Library.AList"
begin

unbundle bit_operations_syntax

section \<open>Python values and exceptions\<close>

text \<open>
  The client decodes deserialised JSON. Python integers are unbounded (\<open>int\<close>); a Python
  float is represented by the real number it stands for (rounding is not modelled, the
  conversion overflow of \<open>int / float\<close> is). A string is a list of characters, one
  \<open>char\<close> per code point; code points above 255 are outside the model.
\<close>

datatype error = KeyError | TypeError | AttributeError | ValueError | OverflowError

text \<open>
  \<open>n / 1e5\<close> and \<open>n / 1e6\<close> with an integer \<open>n\<close>: the integer is first converted to a
  float, which raises OverflowError when it rounds beyond the largest double.
\<close>

definition float_limit :: int where
  "float_limit = 2 ^ 1024 - 2 ^ 970"

definition int_truediv :: "int \<Rightarrow> real \<Rightarrow> error + real" where
  "int_truediv n d = (if float_limit \<le> \<bar>n\<bar> then Inl OverflowError else Inr (real_of_int n / d))"

section \<open>Polyline codec (\<open>decode_polyline\<close>)\<close>

text \<open>
  The inner \<open>while index < len(encoded)\<close> loop, which the source writes out twice (once
  for the latitude delta, once for the longitude delta). It returns the index after the
  loop and the assembled \<open>result\<close>.
\<close>

function varint_loop :: "string \<Rightarrow> nat \<Rightarrow> nat \<Rightarrow> int \<Rightarrow> nat \<times> int" where
  "varint_loop encoded index shift result =
     (if index < length encoded then
        (if (of_char (encoded ! index) - 63 :: int) < 0x20
         then (index + 1, result OR push_bit shift ((of_char (encoded ! index) - 63) AND 0x1f))
         else varint_loop encoded (index + 1) (shift + 5)
                (result OR push_bit shift ((of_char (encoded ! index) - 63) AND 0x1f)))
      else (index, result))"
  by pat_completeness auto
termination
  by (relation "measure (\<lambda>(encoded, index, shift, result). length encoded - index)") auto

declare varint_loop.simps [simp del]

text \<open>\<open>(~(result >> 1)) if (result & 1) else (result >> 1)\<close>\<close>

definition delta_of :: "int \<Rightarrow> int" where
  "delta_of result = (if result AND 1 \<noteq> 0 then NOT (drop_bit 1 result) else drop_bit 1 result)"

text \<open>
  The outer \<open>while index < len(encoded)\<close> loop. \<open>break\<close> after the latitude delta
  returns the coordinates collected so far.
\<close>

function decode_loop ::
  "string \<Rightarrow> nat \<Rightarrow> int \<Rightarrow> int \<Rightarrow> (real \<times> real) list \<Rightarrow> error + (real \<times> real) list" where
  "decode_loop encoded index lat lon coordinates =
     (if index < length encoded then
        (case varint_loop encoded index 0 0 of
           (index1, result1) \<Rightarrow>
             if length encoded \<le> index1 then Inr coordinates
             else
               (case varint_loop encoded index1 0 0 of
                  (index2, result2) \<Rightarrow>
                    (case int_truediv (lat + delta_of result1) 100000 of
                       Inl e \<Rightarrow> Inl e
                     | Inr la \<Rightarrow>
                         (case int_truediv (lon + delta_of result2) 100000 of
                            Inl e \<Rightarrow> Inl e
                          | Inr lo \<Rightarrow>
                              decode_loop encoded index2 (lat + delta_of result1)
                                (lon + delta_of result2) (coordinates @ [(la, lo)])))))
      else Inr coordinates)"
  by pat_completeness auto
termination
proof (relation "measure (\<lambda>(encoded, index, lat, lon, coordinates). length encoded - index)")
  show "wf (measure (\<lambda>(encoded, index, lat, lon, coordinates). length encoded - index))"
    by simp
next
  fix encoded :: string and index :: nat and lat lon :: int
    and coordinates :: "(real \<times> real) list" and index1 index2 :: nat
    and result1 result2 :: int and la lo :: real
  assume lt: "index < length encoded"
    and x: "(index1, result1) = varint_loop encoded index 0 0"
    and nle: "\<not> length encoded \<le> index1"
    and xa: "(index2, result2) = varint_loop encoded index1 0 0"
  have le: "i \<le> fst (varint_loop e i sh r)" for e i sh r
  proof (induction e i sh r rule: varint_loop.induct)
    case (1 e i sh r)
    show ?case
    proof (cases "i < length e")
      case False
      then show ?thesis by (simp add: varint_loop.simps [of e i])
    next
      case True
      show ?thesis
      proof (cases "(of_char (e ! i) - 63 :: int) < 0x20")
        case True
        with \<open>i < length e\<close> show ?thesis
          by (simp add: varint_loop.simps [of e i])
      next
        case False
        with \<open>i < length e\<close> "1.IH" show ?thesis
          by (simp add: varint_loop.simps [of e i])
      qed
    qed
  qed
  have less: "i < fst (varint_loop e i sh r)" if "i < length e" for e i sh r
  proof (cases "(of_char (e ! i) - 63 :: int) < 0x20")
    case True
    with that show ?thesis by (simp add: varint_loop.simps [of e i])
  next
    case False
    have "i + 1 \<le> fst (varint_loop e (i + 1) (sh + 5)
        (r OR push_bit sh ((of_char (e ! i) - 63) AND 0x1f)))"
      by (rule le)
    with that False show ?thesis by (simp add: varint_loop.simps [of e i])
  qed
  have "index < index1"
    using less [OF lt, of 0 0] x by (metis fst_conv)
  moreover have "index1 \<le> index2"
    using le [of index1 encoded 0 0] xa by (metis fst_conv)
  ultimately show "((encoded, index2, lat + delta_of result1, lon + delta_of result2,
      coordinates @ [(la, lo)]), (encoded, index, lat, lon, coordinates))
    \<in> measure (\<lambda>(encoded, index, lat, lon, coordinates). length encoded - index)"
    using lt nle by simp
qed

declare decode_loop.simps [simp del]

definition decode_polyline :: "string \<Rightarrow> error + (real \<times> real) list" where
  "decode_polyline encoded = (if encoded = [] then Inr [] else decode_loop encoded 0 0 0 [])"

subsection \<open>The reference algorithm of the specification\<close>








subsection \<open>The loops as list recursions, and the shapes of an encoded string\<close>










section \<open>Deserialised JSON and the Python operations on it\<close>

text \<open>
  The service's responses reach the client as the result of \<open>response.json()\<close>: nested
  dicts, lists, strings, numbers, booleans and \<open>None\<close>. A dict is an association list
  read through \<open>map_of\<close>; nothing in the client checks the shape of a value before
  using it, so every operation below says what Python does on each shape.
\<close>

datatype json =
    JNull
  | JBool bool
  | JInt int
  | JFloat real
  | JStr string
  | JList "json list"
  | JObj "(string \<times> json) list"

text \<open>Sequencing: the first exception raised ends the computation.\<close>

definition bnd :: "error + 'a \<Rightarrow> ('a \<Rightarrow> error + 'b) \<Rightarrow> error + 'b" where
  "bnd m f = (case m of Inl e \<Rightarrow> Inl e | Inr x \<Rightarrow> f x)"

text \<open>\<open>for x in xs: out.append(f(x))\<close>\<close>

fun each :: "('a \<Rightarrow> error + 'b) \<Rightarrow> 'a list \<Rightarrow> error + 'b list" where
  "each f [] = Inr []"
| "each f (x # xs) = bnd (f x) (\<lambda>y. bnd (each f xs) (\<lambda>ys. Inr (y # ys)))"

text \<open>Truth value of a JSON value (\<open>if x\<close>, \<open>x and ...\<close>, \<open>x or ...\<close>).\<close>

fun py_truthy :: "json \<Rightarrow> bool" where
  "py_truthy JNull = False"
| "py_truthy (JBool b) = b"
| "py_truthy (JInt n) = (n \<noteq> 0)"
| "py_truthy (JFloat x) = (x \<noteq> 0)"
| "py_truthy (JStr s) = (s \<noteq> [])"
| "py_truthy (JList xs) = (xs \<noteq> [])"
| "py_truthy (JObj kvs) = (kvs \<noteq> [])"

fun starts_with :: "string \<Rightarrow> string \<Rightarrow> bool" where
  "starts_with s [] = True"
| "starts_with [] (k # ks) = False"
| "starts_with (c # cs) (k # ks) = (c = k \<and> starts_with cs ks)"

fun str_contains :: "string \<Rightarrow> string \<Rightarrow> bool" where
  "str_contains [] k = (k = [])"
| "str_contains (c # cs) k = (starts_with (c # cs) k \<or> str_contains cs k)"

text \<open>
  \<open>'k' in x\<close>: a key test on a dict, a membership test on a list, a substring test on
  a string, TypeError on anything else.
\<close>

fun py_in :: "string \<Rightarrow> json \<Rightarrow> error + bool" where
  "py_in k (JObj kvs) = Inr (map_of kvs k \<noteq> None)"
| "py_in k (JList xs) = Inr (JStr k \<in> set xs)"
| "py_in k (JStr s) = Inr (str_contains s k)"
| "py_in k JNull = Inl TypeError"
| "py_in k (JBool b) = Inl TypeError"
| "py_in k (JInt n) = Inl TypeError"
| "py_in k (JFloat x) = Inl TypeError"

text \<open>\<open>x['k']\<close>: KeyError on a dict without the key, TypeError on anything but a dict.\<close>

fun py_getitem :: "json \<Rightarrow> string \<Rightarrow> error + json" where
  "py_getitem (JObj kvs) k = (case map_of kvs k of None \<Rightarrow> Inl KeyError | Some v \<Rightarrow> Inr v)"
| "py_getitem JNull k = Inl TypeError"
| "py_getitem (JBool b) k = Inl TypeError"
| "py_getitem (JInt n) k = Inl TypeError"
| "py_getitem (JFloat x) k = Inl TypeError"
| "py_getitem (JStr s) k = Inl TypeError"
| "py_getitem (JList xs) k = Inl TypeError"

text \<open>\<open>d.get('k', default)\<close> on a dict.\<close>

definition dget :: "(string \<times> json) list \<Rightarrow> string \<Rightarrow> json \<Rightarrow> json" where
  "dget kvs k d = (case map_of kvs k of None \<Rightarrow> d | Some v \<Rightarrow> v)"

text \<open>\<open>x.get('k', default)\<close>: only a dict has the method, AttributeError otherwise.\<close>

fun py_get :: "json \<Rightarrow> string \<Rightarrow> json \<Rightarrow> error + json" where
  "py_get (JObj kvs) k d = Inr (dget kvs k d)"
| "py_get JNull k d = Inl AttributeError"
| "py_get (JBool b) k d = Inl AttributeError"
| "py_get (JInt n) k d = Inl AttributeError"
| "py_get (JFloat x) k d = Inl AttributeError"
| "py_get (JStr s) k d = Inl AttributeError"
| "py_get (JList xs) k d = Inl AttributeError"

text \<open>
  \<open>for x in v\<close>: the elements of a list, the keys of a dict, the characters of a
  string, TypeError on anything else.
\<close>

fun py_iter :: "json \<Rightarrow> error + json list" where
  "py_iter (JList xs) = Inr xs"
| "py_iter (JObj kvs) = Inr (map JStr (remdups (map fst kvs)))"
| "py_iter (JStr s) = Inr (map (\<lambda>c. JStr [c]) s)"
| "py_iter JNull = Inl TypeError"
| "py_iter (JBool b) = Inl TypeError"
| "py_iter (JInt n) = Inl TypeError"
| "py_iter (JFloat x) = Inl TypeError"

text \<open>\<open>v / 1e6\<close> for a JSON value \<open>v\<close> (a bool is an integer in Python).\<close>

fun py_truediv :: "json \<Rightarrow> real \<Rightarrow> error + real" where
  "py_truediv (JInt n) d = int_truediv n d"
| "py_truediv (JFloat x) d = Inr (x / d)"
| "py_truediv (JBool b) d = Inr ((if b then 1 else 0) / d)"
| "py_truediv JNull d = Inl TypeError"
| "py_truediv (JStr s) d = Inl TypeError"
| "py_truediv (JList xs) d = Inl TypeError"
| "py_truediv (JObj kvs) d = Inl TypeError"

section \<open>The data classes\<close>

text \<open>
  One record per dataclass of the source, fields in the source's order. A field filled
  from \<open>data.get(...)\<close> holds whatever JSON value the wire carried (the type hints are
  not enforced), so it has type \<open>json\<close>; \<open>None\<close> is \<open>JNull\<close>. Renamed fields:
  \<open>Color.r/g/b\<close> are \<open>Color_r/g/b\<close>, \<open>ServiceMessage.text\<close> is \<open>msg_text\<close> and
  \<open>Trip.id\<close> is \<open>trip_id\<close>.
\<close>

datatype TransportMode = WALK | JNY | BIKE | CAR | TAXI | KISS | PARK | TETA

record Coordinate =
  lat :: real
  lon :: real
  layer_index :: json
  crd_sys_index :: json

record Color =
  Color_r :: json
  Color_g :: json
  Color_b :: json

record Icon =
  resource :: json
  icon_text :: json
  foreground :: "Color option"
  background :: "Color option"

record DrawStyle =
  type :: json
  icon_index :: json
  background :: "Color option"

record Location =
  lid :: json
  name :: json
  type :: json
  coordinate :: Coordinate
  ext_id :: json
  state :: json
  weight :: json
  is_main_mast :: json
  product_classes :: json
  product_refs :: json
  icon_index :: json
  house_number :: json

record Product =
  pid :: json
  name :: json
  name_short :: json
  number :: json
  line :: json
  line_id :: json
  category :: json
  category_out :: json
  category_code :: json
  cls :: json
  operator_index :: json
  admin :: json
  match_id :: json
  icon_index :: json
  him_ids :: json

record Operator =
  name :: json
  icon_index :: json

record ServiceDays =
  regular :: json
  irregular :: json
  bitmask :: json

record ServiceMessage =
  type :: json
  code :: json
  priority :: json
  msg_text :: json
  text_normal :: json
  icon_index :: json
  style :: json
  from_location_index :: json
  to_location_index :: json
  tags :: json
  sort_order :: json
  rem_index :: json

record WalkingSegment =
  name :: json
  instruction :: json
  orientation :: json
  route_type :: json
  distance :: json
  poly_start :: json
  poly_end :: json
  icon_index :: json

record Polyline =
  encoded :: json
  coordinates :: "Coordinate list"
  location_refs :: json
  draw_style_index :: json
  delta :: json
  dimension :: json
  encoding_start :: json
  encoding_format :: json

record Stop =
  location_index :: json
  arrival_time :: json
  departure_time :: json
  arrival_platform :: json
  departure_platform :: json
  arrival_delay :: json
  departure_delay :: json
  cancelled :: json
  additional :: json

record Journey =
  jid :: json
  date :: json
  product_index :: json
  direction_text :: json
  direction_flag :: json
  status :: json
  is_reachable :: json
  stops :: "Stop list"
  polyline_indices :: json
  messages :: "ServiceMessage list"
  subscription :: json
  ctx_recon :: json

text \<open>
  \<open>GisInfo.polyline\<close> holds a reference to a \<open>Polyline\<close> object, or \<open>None\<close>. Objects
  live in a store (a list of the objects created so far); a reference is a position in
  it, so two references are the same object exactly when they are equal numbers.
\<close>

type_synonym ref = nat

record GisInfo =
  distance :: json
  duration_seconds :: json
  ctx :: json
  provider :: json
  segments :: "WalkingSegment list"
  polyline :: "ref option"

record TripSection =
  type :: TransportMode
  departure :: json
  arrival :: json
  journey :: "Journey option"
  gis :: "GisInfo option"
  polyline_indices :: json
  messages :: "ServiceMessage list"
  call_ahead_service :: json
  booking_required :: bool
  booking_deadline_minutes :: "int option"

record FareSet =
  name :: json
  description :: json
  price :: json
  currency :: json
  ticket_ids :: json

record TariffResult =
  status_code :: json
  fare_sets :: "FareSet list"
  external_content :: json
  messages :: json

record Trip =
  trip_id :: json
  date :: json
  duration :: json
  changes :: json
  departure_time :: json
  arrival_time :: json
  sections :: "TripSection list"
  service_days :: "ServiceDays option"
  tariff_result :: "TariffResult option"
  messages :: "ServiceMessage list"
  subscription :: json
  checksum :: json
  checksum_dti :: json
  ctx_recon :: json
  rec_state :: json

text \<open>
  A dict of the source is an association list in insertion order, written with
  \<open>AList.update\<close> (replace in place, or append) and read with \<open>map_of\<close>. The keys of
  \<open>walking_polylines\<close> are hashed values, see \<open>hash_key\<close> below.
\<close>

datatype hkey = KNone | KNum real | KStr string

record CommonData =
  locations :: "(nat \<times> Location) list"
  products :: "(nat \<times> Product) list"
  polylines :: "(nat \<times> Polyline) list"
  operators :: "Operator list"
  remarks :: "ServiceMessage list"
  him_messages :: "(string \<times> ServiceMessage) list"
  icons :: "Icon list"
  directions :: json
  draw_styles :: "DrawStyle list"
  layers :: json
  coordinate_systems :: json
  walking_polylines :: "(hkey \<times> ref) list"

section \<open>The \<open>from_api\<close> constructors\<close>

text \<open>
  Each constructor only calls \<open>data.get\<close>, so it raises AttributeError on anything but
  a dict and copies the values otherwise; the exceptions are noted at the definitions.
\<close>

text \<open>\<open>Coordinate.from_api\<close>: the two divisions come first, latitude before longitude.\<close>

fun Coordinate_from_api :: "json \<Rightarrow> error + Coordinate" where
  "Coordinate_from_api (JObj kvs) =
     bnd (py_truediv (dget kvs ''y'' (JInt 0)) 1000000) (\<lambda>y.
     bnd (py_truediv (dget kvs ''x'' (JInt 0)) 1000000) (\<lambda>x.
     Inr \<lparr>Coordinate.lat = y, Coordinate.lon = x,
          Coordinate.layer_index = dget kvs ''layerX'' (JInt 0),
          Coordinate.crd_sys_index = dget kvs ''crdSysX'' (JInt 0)\<rparr>))"
| "Coordinate_from_api v = Inl AttributeError"

text \<open>\<open>Coordinate(lat, lon)\<close> with the default layer and coordinate system.\<close>

definition Coordinate_of :: "real \<Rightarrow> real \<Rightarrow> Coordinate" where
  "Coordinate_of y x =
     \<lparr>Coordinate.lat = y, Coordinate.lon = x, Coordinate.layer_index = JInt 0,
      Coordinate.crd_sys_index = JInt 0\<rparr>"

text \<open>
  \<open>Color(**d)\<close>: \<open>d\<close> must be a mapping whose keys are exactly \<open>r\<close>, \<open>g\<close> and \<open>b\<close>;
  a missing or an unexpected keyword is a TypeError.
\<close>

fun Color_kwargs :: "json \<Rightarrow> error + Color" where
  "Color_kwargs (JObj kvs) =
     (if set (map fst kvs) = {''r'', ''g'', ''b''}
      then Inr \<lparr>Color_r = dget kvs ''r'' JNull, Color_g = dget kvs ''g'' JNull,
                Color_b = dget kvs ''b'' JNull\<rparr>
      else Inl TypeError)"
| "Color_kwargs v = Inl TypeError"

text \<open>\<open>Color(**data[k]) if k in data else None\<close>\<close>

definition Color_if_in :: "string \<Rightarrow> json \<Rightarrow> error + Color option" where
  "Color_if_in k data =
     bnd (py_in k data) (\<lambda>present.
       if present
       then bnd (py_getitem data k) (\<lambda>d. bnd (Color_kwargs d) (\<lambda>c. Inr (Some c)))
       else Inr None)"

definition Icon_from_api :: "json \<Rightarrow> error + Icon" where
  "Icon_from_api data =
     bnd (Color_if_in ''fg'' data) (\<lambda>fg.
     bnd (Color_if_in ''bg'' data) (\<lambda>bg.
     bnd (py_get data ''res'' (JStr [])) (\<lambda>res.
     bnd (py_get data ''txt'' JNull) (\<lambda>txt.
     Inr \<lparr>Icon.resource = res, Icon.icon_text = txt, Icon.foreground = fg,
          Icon.background = bg\<rparr>))))"

definition DrawStyle_from_api :: "json \<Rightarrow> error + DrawStyle" where
  "DrawStyle_from_api data =
     bnd (Color_if_in ''bg'' data) (\<lambda>bg.
     bnd (py_get data ''type'' (JStr ''SOLID'')) (\<lambda>ty.
     bnd (py_get data ''sIcoX'' JNull) (\<lambda>ico.
     Inr \<lparr>DrawStyle.type = ty, DrawStyle.icon_index = ico, DrawStyle.background = bg\<rparr>)))"

text \<open>\<open>Location.from_api\<close>: \<open>'crd' in data\<close> is evaluated before any \<open>data.get\<close>.\<close>

definition Location_from_api :: "json \<Rightarrow> error + Location" where
  "Location_from_api data =
     bnd (py_in ''crd'' data) (\<lambda>present.
     bnd (if present then bnd (py_getitem data ''crd'') Coordinate_from_api
          else Inr (Coordinate_of 0 0)) (\<lambda>coord.
     case data of
       JObj kvs \<Rightarrow>
         Inr \<lparr>Location.lid = dget kvs ''lid'' (JStr []),
              Location.name = dget kvs ''name'' (JStr []),
              Location.type = dget kvs ''type'' (JStr []),
              Location.coordinate = coord,
              Location.ext_id = dget kvs ''extId'' JNull,
              Location.state = dget kvs ''state'' (JStr ''F''),
              Location.weight = dget kvs ''wt'' (JInt 0),
              Location.is_main_mast = dget kvs ''isMainMast'' (JBool False),
              Location.product_classes = dget kvs ''pCls'' (JInt 0),
              Location.product_refs = dget kvs ''pRefL'' (JList []),
              Location.icon_index = dget kvs ''icoX'' JNull,
              Location.house_number = dget kvs ''H'' JNull\<rparr>
     | _ \<Rightarrow> Inl AttributeError))"

text \<open>
  \<open>Product.from_api\<close>: \<open>ctx = data.get('prodCtx', {})\<close> must be a dict, since
  \<open>ctx.get('line')\<close> is always evaluated; \<open>number\<close> is
  \<open>data.get('number') or ctx.get('num')\<close>.
\<close>

fun Product_from_api :: "json \<Rightarrow> error + Product" where
  "Product_from_api (JObj kvs) =
     (case dget kvs ''prodCtx'' (JObj []) of
        JObj cx \<Rightarrow>
          Inr \<lparr>Product.pid = dget kvs ''pid'' JNull,
               Product.name = dget kvs ''name'' (JStr []),
               Product.name_short = dget kvs ''nameS'' JNull,
               Product.number =
                 (if py_truthy (dget kvs ''number'' JNull) then dget kvs ''number'' JNull
                  else dget cx ''num'' JNull),
               Product.line = dget cx ''line'' JNull,
               Product.line_id = dget cx ''lineId'' JNull,
               Product.category = dget cx ''catIn'' JNull,
               Product.category_out = dget cx ''catOut'' JNull,
               Product.category_code = dget cx ''catCode'' JNull,
               Product.cls = dget kvs ''cls'' (JInt 0),
               Product.operator_index = dget kvs ''oprX'' JNull,
               Product.admin = dget cx ''admin'' JNull,
               Product.match_id = dget cx ''matchId'' JNull,
               Product.icon_index = dget kvs ''icoX'' JNull,
               Product.him_ids = dget kvs ''himIdL'' (JList [])\<rparr>
      | _ \<Rightarrow> Inl AttributeError)"
| "Product_from_api v = Inl AttributeError"

text \<open>\<open>Operator(name=op_data.get('name', ''), icon_index=op_data.get('icoX'))\<close>\<close>

fun Operator_of :: "json \<Rightarrow> error + Operator" where
  "Operator_of (JObj kvs) =
     Inr \<lparr>Operator.name = dget kvs ''name'' (JStr []),
          Operator.icon_index = dget kvs ''icoX'' JNull\<rparr>"
| "Operator_of v = Inl AttributeError"

fun ServiceDays_from_api :: "json \<Rightarrow> error + ServiceDays" where
  "ServiceDays_from_api (JObj kvs) =
     Inr \<lparr>ServiceDays.regular = dget kvs ''sDaysR'' JNull,
          ServiceDays.irregular = dget kvs ''sDaysI'' JNull,
          ServiceDays.bitmask = dget kvs ''sDaysB'' JNull\<rparr>"
| "ServiceDays_from_api v = Inl AttributeError"

fun ServiceMessage_from_api :: "json \<Rightarrow> error + ServiceMessage" where
  "ServiceMessage_from_api (JObj kvs) =
     Inr \<lparr>ServiceMessage.type = dget kvs ''type'' (JStr []),
          ServiceMessage.code = dget kvs ''code'' JNull,
          ServiceMessage.priority = dget kvs ''prio'' (JInt 0),
          ServiceMessage.msg_text = dget kvs ''txtN'' JNull,
          ServiceMessage.text_normal = dget kvs ''txtS'' JNull,
          ServiceMessage.icon_index = dget kvs ''icoX'' JNull,
          ServiceMessage.style = dget kvs ''sty'' JNull,
          ServiceMessage.from_location_index = dget kvs ''fLocX'' JNull,
          ServiceMessage.to_location_index = dget kvs ''tLocX'' JNull,
          ServiceMessage.tags = dget kvs ''tagL'' (JList []),
          ServiceMessage.sort_order = dget kvs ''sort'' (JInt 0),
          ServiceMessage.rem_index = dget kvs ''remX'' JNull\<rparr>"
| "ServiceMessage_from_api v = Inl AttributeError"

fun WalkingSegment_from_api :: "json \<Rightarrow> error + WalkingSegment" where
  "WalkingSegment_from_api (JObj kvs) =
     Inr \<lparr>WalkingSegment.name = dget kvs ''name'' JNull,
          WalkingSegment.instruction = dget kvs ''manTx'' JNull,
          WalkingSegment.orientation = dget kvs ''ori'' JNull,
          WalkingSegment.route_type = dget kvs ''rType'' JNull,
          WalkingSegment.distance = dget kvs ''dist'' (JInt 0),
          WalkingSegment.poly_start = dget kvs ''polyS'' (JInt 0),
          WalkingSegment.poly_end = dget kvs ''polyE'' (JInt 0),
          WalkingSegment.icon_index = dget kvs ''icoX'' JNull\<rparr>"
| "WalkingSegment_from_api v = Inl AttributeError"

fun Stop_from_api :: "json \<Rightarrow> error + Stop" where
  "Stop_from_api (JObj kvs) =
     Inr \<lparr>Stop.location_index = dget kvs ''locX'' (JInt (- 1)),
          Stop.arrival_time = dget kvs ''aTimeS'' JNull,
          Stop.departure_time = dget kvs ''dTimeS'' JNull,
          Stop.arrival_platform = dget kvs ''aPlatfS'' JNull,
          Stop.departure_platform = dget kvs ''dPlatfS'' JNull,
          Stop.arrival_delay = dget kvs ''aDelayS'' JNull,
          Stop.departure_delay = dget kvs ''dDelayS'' JNull,
          Stop.cancelled = dget kvs ''cancelled'' (JBool False),
          Stop.additional = dget kvs ''additional'' (JBool False)\<rparr>"
| "Stop_from_api v = Inl AttributeError"

section \<open>Shared-table resolver (\<open>_parse_common_data\<close>)\<close>

text \<open>
  \<open>decode_polyline\<close> applied to a value of any shape, as the call sites do with
  \<open>poly_data['crdEncYX']\<close>. \<open>if not encoded: return []\<close> answers every false value;
  \<open>len\<close> raises on numbers; \<open>encoded[0]\<close> raises KeyError on a dict (its keys are
  strings); a list is read like a string when all its elements are one-character
  strings, and \<open>ord\<close> raises otherwise (the model reports that TypeError even when a
  division overflow would come first).
\<close>

fun one_char :: "json \<Rightarrow> char option" where
  "one_char (JStr [c]) = Some c"
| "one_char v = None"

fun decode_polyline_value :: "json \<Rightarrow> error + (real \<times> real) list" where
  "decode_polyline_value (JStr s) = decode_polyline s"
| "decode_polyline_value (JList xs) =
     (if xs = [] then Inr []
      else if list_all (\<lambda>x. one_char x \<noteq> None) xs then decode_polyline (map (the \<circ> one_char) xs)
      else Inl TypeError)"
| "decode_polyline_value (JObj kvs) = (if kvs = [] then Inr [] else Inl KeyError)"
| "decode_polyline_value JNull = Inr []"
| "decode_polyline_value (JBool b) = (if b then Inl TypeError else Inr [])"
| "decode_polyline_value (JInt n) = (if n = 0 then Inr [] else Inl TypeError)"
| "decode_polyline_value (JFloat x) = (if x = 0 then Inr [] else Inl TypeError)"

text \<open>
  The \<open>Polyline(...)\<close> construction from one \<open>poly_data\<close> entry, written identically in
  \<open>_parse_common_data\<close> and in \<open>get_walking_details\<close>: decode
  \<open>poly_data['crdEncYX']\<close>, then copy the optional fields.
\<close>

fun Polyline_of :: "json \<Rightarrow> error + Polyline" where
  "Polyline_of (JObj kvs) =
     (case map_of kvs ''crdEncYX'' of
        None \<Rightarrow> Inl KeyError
      | Some enc \<Rightarrow>
          bnd (decode_polyline_value enc) (\<lambda>coords.
          Inr \<lparr>Polyline.encoded = enc,
               Polyline.coordinates = map (\<lambda>(y, x). Coordinate_of y x) coords,
               Polyline.location_refs = dget kvs ''ppLocRefL'' (JList []),
               Polyline.draw_style_index = dget kvs ''lDrawStyleX'' JNull,
               Polyline.delta = dget kvs ''delta'' (JBool True),
               Polyline.dimension = dget kvs ''dim'' (JInt 2),
               Polyline.encoding_start = dget kvs ''crdEncS'' JNull,
               Polyline.encoding_format = dget kvs ''crdEncF'' JNull\<rparr>))"
| "Polyline_of v = Inl TypeError"

text \<open>\<open>if k in common: for x in common[k]: ...\<close>: the items the loop runs over.\<close>

definition items_if_in :: "string \<Rightarrow> json \<Rightarrow> error + json list" where
  "items_if_in k common =
     bnd (py_in k common) (\<lambda>present.
       if present then bnd (py_getitem common k) py_iter else Inr [])"

text \<open>\<open>for i, loc_data in enumerate(common['locL']): data.locations[i] = Location.from_api(loc_data)\<close>\<close>

fun locations_loop ::
  "nat \<Rightarrow> json list \<Rightarrow> (nat \<times> Location) list \<Rightarrow> error + (nat \<times> Location) list" where
  "locations_loop i [] table = Inr table"
| "locations_loop i (loc_data # rest) table =
     bnd (Location_from_api loc_data) (\<lambda>l.
       locations_loop (Suc i) rest (AList.update i l table))"

fun products_loop ::
  "nat \<Rightarrow> json list \<Rightarrow> (nat \<times> Product) list \<Rightarrow> error + (nat \<times> Product) list" where
  "products_loop i [] table = Inr table"
| "products_loop i (prod_data # rest) table =
     bnd (Product_from_api prod_data) (\<lambda>pr.
       products_loop (Suc i) rest (AList.update i pr table))"

text \<open>The polyline loop stores an entry only under \<open>if 'crdEncYX' in poly_data\<close>.\<close>

fun polylines_loop ::
  "nat \<Rightarrow> json list \<Rightarrow> (nat \<times> Polyline) list \<Rightarrow> error + (nat \<times> Polyline) list" where
  "polylines_loop i [] table = Inr table"
| "polylines_loop i (poly_data # rest) table =
     bnd (py_in ''crdEncYX'' poly_data) (\<lambda>present.
       if present
       then bnd (Polyline_of poly_data) (\<lambda>pl.
              polylines_loop (Suc i) rest (AList.update i pl table))
       else polylines_loop (Suc i) rest table)"

definition parse_common_data :: "json \<Rightarrow> error + CommonData" where
  "parse_common_data common =
     bnd (items_if_in ''locL'' common) (\<lambda>locL.
     bnd (locations_loop 0 locL []) (\<lambda>locs.
     bnd (items_if_in ''prodL'' common) (\<lambda>prodL.
     bnd (products_loop 0 prodL []) (\<lambda>prods.
     bnd (items_if_in ''polyL'' common) (\<lambda>polyL.
     bnd (polylines_loop 0 polyL []) (\<lambda>polys.
     bnd (items_if_in ''opL'' common) (\<lambda>opL.
     bnd (each Operator_of opL) (\<lambda>ops.
     bnd (items_if_in ''remL'' common) (\<lambda>remL.
     bnd (each ServiceMessage_from_api remL) (\<lambda>rems.
     bnd (items_if_in ''icoL'' common) (\<lambda>icoL.
     bnd (each Icon_from_api icoL) (\<lambda>icos.
     bnd (py_in ''dirL'' common) (\<lambda>has_dirs.
     bnd (if has_dirs then py_getitem common ''dirL'' else Inr (JList [])) (\<lambda>dirs.
     bnd (items_if_in ''lDrawStyleL'' common) (\<lambda>styleL.
     bnd (each DrawStyle_from_api styleL) (\<lambda>styles.
     bnd (py_get common ''layerL'' (JList [])) (\<lambda>layerL.
     bnd (py_get common ''crdSysL'' (JList [])) (\<lambda>crdSysL.
     Inr \<lparr>CommonData.locations = locs,
          CommonData.products = prods,
          CommonData.polylines = polys,
          CommonData.operators = ops,
          CommonData.remarks = rems,
          CommonData.him_messages = [],
          CommonData.icons = icos,
          CommonData.directions = dirs,
          CommonData.draw_styles = styles,
          CommonData.layers = layerL,
          CommonData.coordinate_systems = crdSysL,
          CommonData.walking_polylines = []\<rparr>))))))))))))))))))"

text \<open>\<open>CommonData()\<close>: every table empty.\<close>

definition CommonData_empty :: CommonData where
  "CommonData_empty =
     \<lparr>CommonData.locations = [], CommonData.products = [], CommonData.polylines = [],
      CommonData.operators = [], CommonData.remarks = [], CommonData.him_messages = [],
      CommonData.icons = [], CommonData.directions = JList [], CommonData.draw_styles = [],
      CommonData.layers = JList [], CommonData.coordinate_systems = JList [],
      CommonData.walking_polylines = []\<rparr>"

section \<open>Section and trip assembler (\<open>_parse_trip\<close>)\<close>

text \<open>\<open>TransportMode(value)\<close>: lookup of an enum member by value, ValueError if none.\<close>

fun TransportMode_of :: "json \<Rightarrow> error + TransportMode" where
  "TransportMode_of (JStr s) =
     (if s = ''WALK'' then Inr WALK
      else if s = ''JNY'' then Inr JNY
      else if s = ''BIKE'' then Inr BIKE
      else if s = ''CAR'' then Inr CAR
      else if s = ''TAXI'' then Inr TAXI
      else if s = ''KISS'' then Inr KISS
      else if s = ''PARK'' then Inr PARK
      else if s = ''TETA'' then Inr TETA
      else Inl ValueError)"
| "TransportMode_of v = Inl ValueError"

text \<open>
  The \<open>Journey(...)\<close> construction, written identically in the TETA and the JNY branch;
  \<open>stops\<close>, \<open>polyline_indices\<close> and \<open>messages\<close> start from their defaults.
\<close>

fun Journey_of :: "json \<Rightarrow> error + Journey" where
  "Journey_of (JObj kvs) =
     Inr \<lparr>Journey.jid = dget kvs ''jid'' (JStr []),
          Journey.date = dget kvs ''date'' (JStr []),
          Journey.product_index = dget kvs ''prodX'' JNull,
          Journey.direction_text = dget kvs ''dirTxt'' JNull,
          Journey.direction_flag = dget kvs ''dirFlg'' JNull,
          Journey.status = dget kvs ''status'' JNull,
          Journey.is_reachable = dget kvs ''isRchbl'' (JBool True),
          Journey.stops = [],
          Journey.polyline_indices = JList [],
          Journey.messages = [],
          Journey.subscription = dget kvs ''subscr'' (JStr ''N''),
          Journey.ctx_recon = dget kvs ''ctxRecon'' JNull\<rparr>"
| "Journey_of v = Inl AttributeError"

text \<open>
  \<open>if 'polyG' in jny_data and 'polyXL' in jny_data['polyG']:
  section.journey.polyline_indices = jny_data['polyG']['polyXL']\<close>
\<close>

definition set_polyline_indices :: "json \<Rightarrow> Journey \<Rightarrow> error + Journey" where
  "set_polyline_indices jny_data j =
     bnd (py_in ''polyG'' jny_data) (\<lambda>has_polyG.
       if has_polyG
       then bnd (py_getitem jny_data ''polyG'') (\<lambda>polyG.
            bnd (py_in ''polyXL'' polyG) (\<lambda>has_polyXL.
              if has_polyXL
              then bnd (py_getitem polyG ''polyXL'') (\<lambda>xl.
                     Inr (j\<lparr>Journey.polyline_indices := xl\<rparr>))
              else Inr j))
       else Inr j)"

text \<open>
  \<open>if 'msgL' in jny_data: for msg_data in jny_data['msgL']:
  section.journey.messages.append(ServiceMessage.from_api(msg_data))\<close>
\<close>

definition add_journey_messages :: "json \<Rightarrow> Journey \<Rightarrow> error + Journey" where
  "add_journey_messages jny_data j =
     bnd (items_if_in ''msgL'' jny_data) (\<lambda>msgL.
     bnd (each ServiceMessage_from_api msgL) (\<lambda>ms.
     Inr (j\<lparr>Journey.messages := Journey.messages j @ ms\<rparr>)))"

text \<open>The TETA branch: journey, polyline indices, messages. No stop list is read.\<close>

definition teta_journey :: "json \<Rightarrow> error + Journey" where
  "teta_journey jny_data =
     bnd (Journey_of jny_data) (\<lambda>j.
     bnd (set_polyline_indices jny_data j) (\<lambda>j.
     add_journey_messages jny_data j))"

text \<open>The JNY branch: journey, stops, polyline indices, messages.\<close>

definition jny_journey :: "json \<Rightarrow> error + Journey" where
  "jny_journey jny_data =
     bnd (Journey_of jny_data) (\<lambda>j.
     bnd (items_if_in ''stopL'' jny_data) (\<lambda>stopL.
     bnd (each Stop_from_api stopL) (\<lambda>sts.
     bnd (set_polyline_indices jny_data (j\<lparr>Journey.stops := Journey.stops j @ sts\<rparr>)) (\<lambda>j.
     add_journey_messages jny_data j))))"

fun GisInfo_of :: "json \<Rightarrow> error + GisInfo" where
  "GisInfo_of (JObj kvs) =
     Inr \<lparr>GisInfo.distance = dget kvs ''dist'' (JInt 0),
          GisInfo.duration_seconds = dget kvs ''durS'' (JStr []),
          GisInfo.ctx = dget kvs ''ctx'' (JStr []),
          GisInfo.provider = dget kvs ''gisPrvr'' (JStr ''E''),
          GisInfo.segments = [],
          GisInfo.polyline = None\<rparr>"
| "GisInfo_of v = Inl AttributeError"

text \<open>
  \<open>if section.departure and 'dCaS' in section.departure:\<close> the call-ahead block. It is
  not guarded by the section's mode.
\<close>

definition call_ahead :: "TripSection \<Rightarrow> error + TripSection" where
  "call_ahead s =
     bnd (if py_truthy (TripSection.departure s) then py_in ''dCaS'' (TripSection.departure s)
          else Inr False) (\<lambda>flagged.
       if flagged
       then bnd (py_getitem (TripSection.departure s) ''dCaS'') (\<lambda>v.
              Inr (s\<lparr>TripSection.call_ahead_service := v,
                     TripSection.booking_required := True,
                     TripSection.booking_deadline_minutes := Some 120\<rparr>))
       else Inr s)"

text \<open>The \<open>if / elif / elif\<close> chain on the section's mode.\<close>

definition mode_payload :: "json \<Rightarrow> TripSection \<Rightarrow> error + TripSection" where
  "mode_payload sec_data s =
     bnd (if TripSection.type s = WALK then py_in ''gis'' sec_data else Inr False) (\<lambda>walk.
       if walk
       then bnd (py_getitem sec_data ''gis'') (\<lambda>gis_data.
            bnd (GisInfo_of gis_data) (\<lambda>g. Inr (s\<lparr>TripSection.gis := Some g\<rparr>)))
       else
         bnd (if TripSection.type s = TETA then py_in ''jny'' sec_data else Inr False) (\<lambda>teta.
           if teta
           then bnd (py_getitem sec_data ''jny'') (\<lambda>jny_data.
                bnd (teta_journey jny_data) (\<lambda>j. Inr (s\<lparr>TripSection.journey := Some j\<rparr>)))
           else
             bnd (if TripSection.type s = JNY then py_in ''jny'' sec_data else Inr False) (\<lambda>jny.
               if jny
               then bnd (py_getitem sec_data ''jny'') (\<lambda>jny_data.
                    bnd (jny_journey jny_data) (\<lambda>j. Inr (s\<lparr>TripSection.journey := Some j\<rparr>)))
               else Inr s)))"

text \<open>\<open>TripSection(type=..., departure=..., arrival=...)\<close>: the other fields at their defaults.\<close>

definition new_section :: "TransportMode \<Rightarrow> json \<Rightarrow> json \<Rightarrow> TripSection" where
  "new_section mode dep arr =
     \<lparr>TripSection.type = mode, TripSection.departure = dep, TripSection.arrival = arr,
      TripSection.journey = None, TripSection.gis = None,
      TripSection.polyline_indices = JList [], TripSection.messages = [],
      TripSection.call_ahead_service = JBool False,
      TripSection.booking_required = False,
      TripSection.booking_deadline_minutes = None\<rparr>"

text \<open>The body of \<open>for sec_data in conn.get('secL', [])\<close>.\<close>

definition parse_section :: "json \<Rightarrow> error + TripSection" where
  "parse_section sec_data =
     bnd (py_getitem sec_data ''type'') (\<lambda>ty.
     bnd (TransportMode_of ty) (\<lambda>mode.
     bnd (py_get sec_data ''dep'' JNull) (\<lambda>dep.
     bnd (py_get sec_data ''arr'' JNull) (\<lambda>arr.
     bnd (call_ahead (new_section mode dep arr)) (\<lambda>s.
     bnd (mode_payload sec_data s) (\<lambda>s.
     bnd (items_if_in ''msgL'' sec_data) (\<lambda>msgL.
     bnd (each ServiceMessage_from_api msgL) (\<lambda>ms.
     Inr (s\<lparr>TripSection.messages := TripSection.messages s @ ms\<rparr>)))))))))"

text \<open>\<open>x = f(conn[k]) if k in conn else None\<close>\<close>

definition opt_if_in :: "string \<Rightarrow> json \<Rightarrow> (json \<Rightarrow> error + 'a) \<Rightarrow> error + 'a option" where
  "opt_if_in k conn f =
     bnd (py_in k conn) (\<lambda>present.
       if present then bnd (py_getitem conn k) (\<lambda>v. bnd (f v) (\<lambda>x. Inr (Some x)))
       else Inr None)"

fun TariffResult_of :: "json \<Rightarrow> error + TariffResult" where
  "TariffResult_of (JObj kvs) =
     Inr \<lparr>TariffResult.status_code = dget kvs ''statusCode'' (JStr []),
          TariffResult.fare_sets = [],
          TariffResult.external_content = dget kvs ''extCont'' JNull,
          TariffResult.messages = dget kvs ''msgL'' (JList [])\<rparr>"
| "TariffResult_of v = Inl AttributeError"

text \<open>The body of the \<open>try\<close> block of \<open>_parse_trip\<close>.\<close>

definition parse_trip_body :: "json \<Rightarrow> error + Trip" where
  "parse_trip_body conn =
     bnd (py_get conn ''secL'' (JList [])) (\<lambda>secL.
     bnd (py_iter secL) (\<lambda>secs.
     bnd (each parse_section secs) (\<lambda>ss.
     bnd (opt_if_in ''sDays'' conn ServiceDays_from_api) (\<lambda>sdays.
     bnd (opt_if_in ''trfRes'' conn TariffResult_of) (\<lambda>trf.
     bnd (items_if_in ''msgL'' conn) (\<lambda>msgL.
     bnd (each ServiceMessage_from_api msgL) (\<lambda>ms.
     bnd (py_get conn ''cid'' (JStr [])) (\<lambda>cid.
     bnd (py_get conn ''date'' (JStr [])) (\<lambda>dt.
     bnd (py_get conn ''dur'' (JStr [])) (\<lambda>dur.
     bnd (py_get conn ''chg'' (JInt 0)) (\<lambda>chg.
     bnd (py_get conn ''dep'' (JObj [])) (\<lambda>dep.
     bnd (py_get dep ''dTimeS'' (JStr [])) (\<lambda>dtime.
     bnd (py_get conn ''arr'' (JObj [])) (\<lambda>arr.
     bnd (py_get arr ''aTimeS'' (JStr [])) (\<lambda>atime.
     bnd (py_get conn ''conSubscr'' (JStr ''N'')) (\<lambda>subscr.
     bnd (py_get conn ''cksum'' JNull) (\<lambda>cksum.
     bnd (py_get conn ''cksumDti'' JNull) (\<lambda>cksum_dti.
     bnd (py_get conn ''ctxRecon'' JNull) (\<lambda>recon.
     bnd (py_get conn ''recState'' (JStr ''U'')) (\<lambda>rstate.
     Inr \<lparr>Trip.trip_id = cid, Trip.date = dt, Trip.duration = dur, Trip.changes = chg,
          Trip.departure_time = dtime, Trip.arrival_time = atime, Trip.sections = ss,
          Trip.service_days = sdays, Trip.tariff_result = trf, Trip.messages = ms,
          Trip.subscription = subscr, Trip.checksum = cksum, Trip.checksum_dti = cksum_dti,
          Trip.ctx_recon = recon, Trip.rec_state = rstate\<rparr>))))))))))))))))))))"

text \<open>
  \<open>_parse_trip\<close>: \<open>except Exception\<close> turns every exception of the body into \<open>None\<close>.
  The \<open>common_data\<close> argument is not used by the source.
\<close>

definition parse_trip :: "json \<Rightarrow> CommonData \<Rightarrow> Trip option" where
  "parse_trip conn common_data =
     (case parse_trip_body conn of Inl e \<Rightarrow> None | Inr trip \<Rightarrow> Some trip)"

section \<open>Walking-route cache (\<open>get_walking_details\<close> and the fill in \<open>plan_trip\<close>)\<close>

text \<open>
  The state that the fill changes besides the trips and the \<open>CommonData\<close>: the client's
  \<open>_request_counter\<close>, the store of the \<open>Polyline\<close> objects that
  \<open>get_walking_details\<close> creates, and the log of the walking-details requests sent
  (their \<open>gisCtx\<close>, in order).
\<close>

record world =
  request_counter :: nat
  heap :: "Polyline list"
  fetched :: "json list"

text \<open>
  The transport collaborator: what \<open>_make_request\<close> returns for the walking-details
  request number \<open>n\<close> with the given \<open>gisCtx\<close>. \<open>None\<close> is a failed HTTP request or
  an undecodable body.
\<close>

type_synonym transport = "nat \<Rightarrow> json \<Rightarrow> json option"

text \<open>
  \<open>for poly_data in res['common']['polyL']\<close>: every entry with a geometry string
  extends \<open>coordinates\<close> and becomes a new \<open>Polyline\<close> object, the last one stays in
  \<open>polyline\<close>.
\<close>

fun walking_polylines_loop ::
  "json list \<Rightarrow> Coordinate list \<times> ref option \<times> Polyline list \<Rightarrow>
   error + (Coordinate list \<times> ref option \<times> Polyline list)" where
  "walking_polylines_loop [] st = Inr st"
| "walking_polylines_loop (poly_data # rest) (coords, pl, hp) =
     bnd (py_in ''crdEncYX'' poly_data) (\<lambda>present.
       if present
       then bnd (Polyline_of poly_data) (\<lambda>obj.
              walking_polylines_loop rest
                (coords @ Polyline.coordinates obj, Some (length hp), hp @ [obj]))
       else walking_polylines_loop rest (coords, pl, hp))"

text \<open>
  \<open>if 'gis' in sec and 'segL' in sec['gis']: for seg_data in sec['gis']['segL']:
  segments.append(WalkingSegment.from_api(seg_data))\<close>
\<close>

definition sec_segments :: "json \<Rightarrow> error + WalkingSegment list" where
  "sec_segments sec =
     bnd (py_in ''gis'' sec) (\<lambda>has_gis.
       if has_gis
       then bnd (py_getitem sec ''gis'') (\<lambda>gis_data.
            bnd (py_in ''segL'' gis_data) (\<lambda>has_segL.
              if has_segL
              then bnd (py_getitem gis_data ''segL'') (\<lambda>segL.
                   bnd (py_iter segL) (each WalkingSegment_from_api))
              else Inr []))
       else Inr [])"

text \<open>\<open>for sec in con.get('secL', [])\<close>\<close>

definition con_segments :: "json \<Rightarrow> error + WalkingSegment list" where
  "con_segments con =
     bnd (py_get con ''secL'' (JList [])) (\<lambda>secL.
     bnd (py_iter secL) (\<lambda>secs.
     bnd (each sec_segments secs) (\<lambda>found. Inr (concat found))))"

text \<open>\<open>if 'conL' in res: for con in res['conL']\<close>\<close>

definition res_segments :: "json \<Rightarrow> error + WalkingSegment list" where
  "res_segments res =
     bnd (py_in ''conL'' res) (\<lambda>has_conL.
       if has_conL
       then bnd (py_getitem res ''conL'') (\<lambda>conL.
            bnd (py_iter conL) (\<lambda>cons.
            bnd (each con_segments cons) (\<lambda>found. Inr (concat found))))
       else Inr [])"

text \<open>The body of \<open>for svc in response['svcResL']\<close> in \<open>get_walking_details\<close>.\<close>

definition walking_svc ::
  "json \<Rightarrow> Coordinate list \<times> WalkingSegment list \<times> ref option \<times> Polyline list \<Rightarrow>
   error + (Coordinate list \<times> WalkingSegment list \<times> ref option \<times> Polyline list)" where
  "walking_svc svc st =
     (case st of (coords, segs, pl, hp) \<Rightarrow>
     bnd (py_get svc ''meth'' JNull) (\<lambda>meth.
     bnd (if meth = JStr ''GisRoute'' then py_in ''res'' svc else Inr False) (\<lambda>selected.
       if selected
       then bnd (py_getitem svc ''res'') (\<lambda>res.
            bnd (py_in ''common'' res) (\<lambda>has_common.
            bnd (if has_common
                 then bnd (py_getitem res ''common'') (\<lambda>common. py_in ''polyL'' common)
                 else Inr False) (\<lambda>has_polyL.
            bnd (if has_polyL
                 then bnd (py_getitem res ''common'') (\<lambda>common.
                      bnd (py_getitem common ''polyL'') (\<lambda>polyL.
                      bnd (py_iter polyL) (\<lambda>items.
                      walking_polylines_loop items (coords, pl, hp))))
                 else Inr (coords, pl, hp)) (\<lambda>(coords', pl', hp').
            bnd (res_segments res) (\<lambda>found.
            Inr (coords', segs @ found, pl', hp'))))))
       else Inr (coords, segs, pl, hp))))"

fun walking_svcs_loop ::
  "json list \<Rightarrow> Coordinate list \<times> WalkingSegment list \<times> ref option \<times> Polyline list \<Rightarrow>
   error + (Coordinate list \<times> WalkingSegment list \<times> ref option \<times> Polyline list)" where
  "walking_svcs_loop [] st = Inr st"
| "walking_svcs_loop (svc # rest) st = bnd (walking_svc svc st) (walking_svcs_loop rest)"

text \<open>
  \<open>get_walking_details\<close>. \<open>_create_request\<close> increments the request counter, the
  request is sent, and \<open>if not response or 'svcResL' not in response\<close> returns
  \<open>([], [], None)\<close>. An exception raised while reading the response is not caught here
  nor in \<open>plan_trip\<close>.
\<close>

definition get_walking_details ::
  "transport \<Rightarrow> json \<Rightarrow> world \<Rightarrow>
   error + ((Coordinate list \<times> WalkingSegment list \<times> ref option) \<times> world)" where
  "get_walking_details net gis_ctx w =
     (let w1 = w\<lparr>request_counter := request_counter w + 1, fetched := fetched w @ [gis_ctx]\<rparr>
      in case net (request_counter w1) gis_ctx of
           None \<Rightarrow> Inr (([], [], None), w1)
         | Some response \<Rightarrow>
             bnd (if py_truthy response then py_in ''svcResL'' response else Inr False) (\<lambda>usable.
               if \<not> usable then Inr (([], [], None), w1)
               else
                 bnd (py_getitem response ''svcResL'') (\<lambda>svcResL.
                 bnd (py_iter svcResL) (\<lambda>svcs.
                 bnd (walking_svcs_loop svcs ([], [], None, heap w1)) (\<lambda>(coords, segs, pl, hp).
                 Inr ((coords, segs, pl), w1\<lparr>heap := hp\<rparr>))))))"

text \<open>
  The key under which a value is found in a dict: Python compares keys by \<open>==\<close> after
  hashing, so \<open>1\<close>, \<open>1.0\<close> and \<open>True\<close> are one key; a list or a dict is unhashable.
\<close>

fun hash_key :: "json \<Rightarrow> error + hkey" where
  "hash_key JNull = Inr KNone"
| "hash_key (JBool b) = Inr (KNum (if b then 1 else 0))"
| "hash_key (JInt n) = Inr (KNum (real_of_int n))"
| "hash_key (JFloat x) = Inr (KNum x)"
| "hash_key (JStr s) = Inr (KStr s)"
| "hash_key (JList xs) = Inl TypeError"
| "hash_key (JObj kvs) = Inl TypeError"

text \<open>
  The body of \<open>for section in trip.sections\<close>: the fetch-or-reuse step on one section.
\<close>

definition fill_section ::
  "transport \<Rightarrow> TripSection \<Rightarrow> CommonData \<times> world \<Rightarrow>
   error + (TripSection \<times> CommonData \<times> world)" where
  "fill_section net s st =
     (case st of (cd, w) \<Rightarrow>
      case TripSection.gis s of
        None \<Rightarrow> Inr (s, cd, w)
      | Some g \<Rightarrow>
          if TripSection.type s = WALK \<and> py_truthy (GisInfo.ctx g)
          then
            bnd (hash_key (GisInfo.ctx g)) (\<lambda>k.
              case map_of (CommonData.walking_polylines cd) k of
                None \<Rightarrow>
                  bnd (get_walking_details net (GisInfo.ctx g) w) (\<lambda>((coords, segs, pl), w').
                    case pl of
                      Some r \<Rightarrow>
                        Inr (s\<lparr>TripSection.gis :=
                                 Some (g\<lparr>GisInfo.polyline := Some r,
                                         GisInfo.segments := segs\<rparr>)\<rparr>,
                             cd\<lparr>CommonData.walking_polylines :=
                                  AList.update k r (CommonData.walking_polylines cd)\<rparr>,
                             w')
                    | None \<Rightarrow> Inr (s, cd, w'))
              | Some r \<Rightarrow>
                  Inr (s\<lparr>TripSection.gis := Some (g\<lparr>GisInfo.polyline := Some r\<rparr>)\<rparr>, cd, w))
          else Inr (s, cd, w))"

fun fill_sections ::
  "transport \<Rightarrow> TripSection list \<Rightarrow> CommonData \<times> world \<Rightarrow>
   error + (TripSection list \<times> CommonData \<times> world)" where
  "fill_sections net [] st = Inr ([], st)"
| "fill_sections net (s # rest) st =
     bnd (fill_section net s st) (\<lambda>(s', st').
     bnd (fill_sections net rest st') (\<lambda>(ss, st''). Inr (s' # ss, st'')))"

text \<open>
  \<open>for conn in res.get('outConL', [])\<close> of \<open>plan_trip\<close>; \<open>fetching\<close> is
  \<open>self.auto_fetch_walking and get_polylines\<close>. The trip is appended and then filled
  in place, so the list holds the filled trip. With \<open>fetching\<close> false this is also the
  loop of \<open>scroll_trips\<close>.
\<close>

fun conns_loop ::
  "bool \<Rightarrow> transport \<Rightarrow> json list \<Rightarrow> Trip list \<times> CommonData \<times> world \<Rightarrow>
   error + (Trip list \<times> CommonData \<times> world)" where
  "conns_loop fetching net [] st = Inr st"
| "conns_loop fetching net (conn # rest) (trips, cd, w) =
     (case parse_trip conn cd of
        None \<Rightarrow> conns_loop fetching net rest (trips, cd, w)
      | Some trip \<Rightarrow>
          if fetching
          then bnd (fill_sections net (Trip.sections trip) (cd, w)) (\<lambda>(ss, st').
                 conns_loop fetching net rest (trips @ [trip\<lparr>Trip.sections := ss\<rparr>], st'))
          else conns_loop fetching net rest (trips @ [trip], cd, w))"




section \<open>Notions for the properties of the resolver\<close>

text \<open>
  What one pass of the polyline loop does with an entry: the \<open>Polyline\<close> it stores, or
  \<open>None\<close> when the entry has no geometry string.
\<close>

definition polyline_entry :: "json \<Rightarrow> error + Polyline option" where
  "polyline_entry poly_data =
     bnd (py_in ''crdEncYX'' poly_data) (\<lambda>present.
       if present then bnd (Polyline_of poly_data) (\<lambda>pl. Inr (Some pl)) else Inr None)"

text \<open>The table built from what each position stored, starting at index \<open>i\<close>.\<close>

fun stored :: "nat \<Rightarrow> 'a option list \<Rightarrow> (nat \<times> 'a) list" where
  "stored i [] = []"
| "stored i (None # es) = stored (Suc i) es"
| "stored i (Some x # es) = (i, x) # stored (Suc i) es"

section \<open>Notions for the properties of the walking-route cache\<close>

text \<open>
  A section bears the key \<open>k\<close> when the fill looks \<open>k\<close> up for it: a WALK section
  whose \<open>GisInfo\<close> carries a true (non-empty) route-context token that hashes to \<open>k\<close>.
\<close>

definition bears :: "hkey \<Rightarrow> TripSection \<Rightarrow> bool" where
  "bears k s \<longleftrightarrow>
     TripSection.type s = WALK \<and>
     (case TripSection.gis s of
        None \<Rightarrow> False
      | Some g \<Rightarrow> py_truthy (GisInfo.ctx g) \<and> hash_key (GisInfo.ctx g) = Inr k)"

text \<open>The \<open>Polyline\<close> reference attached to a section, if any.\<close>

definition attached :: "TripSection \<Rightarrow> ref option" where
  "attached s = (case TripSection.gis s of None \<Rightarrow> None | Some g \<Rightarrow> GisInfo.polyline g)"

text \<open>A section with the attached geometry removed.\<close>

definition unfilled :: "TripSection \<Rightarrow> TripSection" where
  "unfilled s =
     s\<lparr>TripSection.gis :=
         map_option (\<lambda>g. g\<lparr>GisInfo.polyline := None, GisInfo.segments := []\<rparr>) (TripSection.gis s)\<rparr>"

text \<open>How many of the logged walking-details requests were for a token with key \<open>k\<close>.\<close>

definition count_key :: "hkey \<Rightarrow> json list \<Rightarrow> nat" where
  "count_key k toks = length (filter (\<lambda>tok. hash_key tok = Inr k) toks)"





text \<open>A transport on which every request fails.\<close>

definition offline :: transport where
  "offline n tok = None"



text \<open>
  A transport on which a walking-details request for a token with key \<open>k\<close>, whenever
  it is answered, is answered without a polyline (a failed request is such an answer).
\<close>

definition never_geometry :: "transport \<Rightarrow> hkey \<Rightarrow> bool" where
  "never_geometry net k \<longleftrightarrow>
     (\<forall>tok w coords segs pl w'.
        hash_key tok = Inr k \<longrightarrow>
        get_walking_details net tok w = Inr ((coords, segs, pl), w') \<longrightarrow> pl = None)"

text \<open>
  A returned section \<open>s'\<close> against the assembled section \<open>s\<close>: equal up to attached
  geometry, and equal outright if \<open>s\<close> bears \<open>k\<close>. A returned trip against the
  assembled trip: equal up to its sections, which correspond one to one.
\<close>

definition kept_as :: "hkey \<Rightarrow> TripSection \<Rightarrow> TripSection \<Rightarrow> bool" where
  "kept_as k s s' \<longleftrightarrow> unfilled s' = s \<and> (bears k s \<longrightarrow> s' = s)"

definition returned_as :: "hkey \<Rightarrow> Trip \<Rightarrow> Trip \<Rightarrow> bool" where
  "returned_as k t t' \<longleftrightarrow>
     t' = t\<lparr>Trip.sections := Trip.sections t'\<rparr>
     \<and> list_all2 (kept_as k) (Trip.sections t) (Trip.sections t')"


text \<open>A transport whose responses \<open>get_walking_details\<close> reads without an exception.\<close>

definition answers :: "transport \<Rightarrow> bool" where
  "answers net \<longleftrightarrow> (\<forall>tok w. \<exists>res w'. get_walking_details net tok w = Inr (res, w'))"

text \<open>No assembled section of the connections carries a list or a dict as its token.\<close>

definition hashable_tokens :: "json list \<Rightarrow> bool" where
  "hashable_tokens conns \<longleftrightarrow>
     (\<forall>conn \<in> set conns.
        case parse_trip conn CommonData_empty of
          None \<Rightarrow> True
        | Some t \<Rightarrow>
            (\<forall>s \<in> set (Trip.sections t).
               case TripSection.gis s of
                 None \<Rightarrow> True
               | Some g \<Rightarrow> hash_key (GisInfo.ctx g) \<noteq> Inl TypeError))"

section \<open>Properties of the polyline codec\<close>


































section \<open>Sequencing lemmas\<close>

lemma bnd_Inr [simp]: "bnd (Inr x) f = f x"
  by (simp add: bnd_def)

lemma bnd_Inl [simp]: "bnd (Inl e) f = Inl e"
  by (simp add: bnd_def)

lemma bnd_eq_Inr: "bnd m f = Inr y \<longleftrightarrow> (\<exists>x. m = Inr x \<and> f x = Inr y)"
  by (cases m) simp_all

lemma each_length: "each f xs = Inr ys \<Longrightarrow> length ys = length xs"
  by (induction xs arbitrary: ys) (auto simp: bnd_eq_Inr)

lemma each_nth: "each f xs = Inr ys \<Longrightarrow> i < length xs \<Longrightarrow> f (xs ! i) = Inr (ys ! i)"
proof (induction xs arbitrary: ys i)
  case Nil
  then show ?case by simp
next
  case (Cons x xs)
  then obtain y ys' where y: "f x = Inr y" and r: "each f xs = Inr ys'" and e: "ys = y # ys'"
    by (auto simp: bnd_eq_Inr)
  show ?case
  proof (cases i)
    case 0
    with y e show ?thesis by simp
  next
    case (Suc j)
    with Cons.prems(2) have "j < length xs" by simp
    with Cons.IH [OF r] Suc e show ?thesis by simp
  qed
qed

section \<open>Properties of the assembler\<close>

lemma call_ahead_frame:
  "call_ahead s = Inr s' \<Longrightarrow>
   TripSection.type s' = TripSection.type s \<and> TripSection.departure s' = TripSection.departure s
   \<and> TripSection.arrival s' = TripSection.arrival s
   \<and> TripSection.journey s' = TripSection.journey s \<and> TripSection.gis s' = TripSection.gis s
   \<and> TripSection.messages s' = TripSection.messages s"
  by (auto simp: call_ahead_def bnd_eq_Inr split: if_splits)

lemma call_ahead_dict:
  "TripSection.departure s = JObj dep \<Longrightarrow>
   call_ahead s =
     (case map_of dep ''dCaS'' of
        None \<Rightarrow> Inr s
      | Some v \<Rightarrow>
          Inr (s\<lparr>TripSection.call_ahead_service := v, TripSection.booking_required := True,
                 TripSection.booking_deadline_minutes := Some 120\<rparr>))"
  by (cases "map_of dep ''dCaS''") (auto simp: call_ahead_def)

lemma call_ahead_other:
  "call_ahead s = Inr s' \<Longrightarrow> \<forall>dep. TripSection.departure s \<noteq> JObj dep \<Longrightarrow> s' = s"
  by (cases "TripSection.departure s") (auto simp: call_ahead_def bnd_eq_Inr split: if_splits)

lemma mode_payload_frame:
  "mode_payload sec_data s = Inr s' \<Longrightarrow>
   TripSection.type s' = TripSection.type s \<and> TripSection.departure s' = TripSection.departure s
   \<and> TripSection.call_ahead_service s' = TripSection.call_ahead_service s
   \<and> TripSection.booking_required s' = TripSection.booking_required s
   \<and> TripSection.booking_deadline_minutes s' = TripSection.booking_deadline_minutes s"
  by (auto simp: mode_payload_def bnd_eq_Inr split: if_splits)

lemma parse_section_steps:
  assumes "parse_section sec_data = Inr s"
  obtains kvs m mode s1 s2 ms where
    "sec_data = JObj kvs" "map_of kvs ''type'' = Some m" "TransportMode_of m = Inr mode"
    "call_ahead (new_section mode (dget kvs ''dep'' JNull) (dget kvs ''arr'' JNull)) = Inr s1"
    "mode_payload sec_data s1 = Inr s2"
    "s = s2\<lparr>TripSection.messages := TripSection.messages s2 @ ms\<rparr>"
proof (cases sec_data)
  case (JObj kvs)
  from assms obtain m mode s1 s2 msgL ms where
    "map_of kvs ''type'' = Some m" "TransportMode_of m = Inr mode"
    "call_ahead (new_section mode (dget kvs ''dep'' JNull) (dget kvs ''arr'' JNull)) = Inr s1"
    "mode_payload sec_data s1 = Inr s2"
    "s = s2\<lparr>TripSection.messages := TripSection.messages s2 @ ms\<rparr>"
    unfolding JObj parse_section_def
    by (auto simp: bnd_eq_Inr split: option.splits)
  with JObj that show ?thesis by blast
qed (use assms in \<open>simp_all add: parse_section_def\<close>)

lemma parse_section_call_ahead:
  assumes "parse_section (JObj kvs) = Inr s"
  shows "TripSection.departure s = dget kvs ''dep'' JNull
     \<and> (\<exists>m. map_of kvs ''type'' = Some m \<and> TransportMode_of m = Inr (TripSection.type s))
     \<and> (case dget kvs ''dep'' JNull of
          JObj dep \<Rightarrow>
            (case map_of dep ''dCaS'' of
               Some v \<Rightarrow> TripSection.call_ahead_service s = v \<and> TripSection.booking_required s
                  \<and> TripSection.booking_deadline_minutes s = Some 120
             | None \<Rightarrow> TripSection.call_ahead_service s = JBool False
                  \<and> \<not> TripSection.booking_required s
                  \<and> TripSection.booking_deadline_minutes s = None)
        | _ \<Rightarrow> TripSection.call_ahead_service s = JBool False
                  \<and> \<not> TripSection.booking_required s
                  \<and> TripSection.booking_deadline_minutes s = None)"
proof -
  from assms obtain kvs' m mode s1 s2 ms where
    k: "JObj kvs = JObj kvs'" and ty: "map_of kvs' ''type'' = Some m" "TransportMode_of m = Inr mode"
    and ca: "call_ahead (new_section mode (dget kvs' ''dep'' JNull) (dget kvs' ''arr'' JNull)) = Inr s1"
    and mp: "mode_payload (JObj kvs) s1 = Inr s2"
    and s: "s = s2\<lparr>TripSection.messages := TripSection.messages s2 @ ms\<rparr>"
    by (rule parse_section_steps)
  from k have kk: "kvs' = kvs" by simp
  let ?s0 = "new_section mode (dget kvs ''dep'' JNull) (dget kvs ''arr'' JNull)"
  note f1 = call_ahead_frame [OF ca [unfolded kk]]
  note f2 = mode_payload_frame [OF mp]
  have dep: "TripSection.departure s = dget kvs ''dep'' JNull"
    using f1 f2 s by (simp add: new_section_def)
  have mode: "TripSection.type s = mode"
    using f1 f2 s by (simp add: new_section_def)
  have fields: "TripSection.call_ahead_service s = TripSection.call_ahead_service s1"
    "TripSection.booking_required s = TripSection.booking_required s1"
    "TripSection.booking_deadline_minutes s = TripSection.booking_deadline_minutes s1"
    using f2 s by simp_all
  have d0: "TripSection.departure ?s0 = dget kvs ''dep'' JNull" by (simp add: new_section_def)
  have third: "(case dget kvs ''dep'' JNull of
          JObj dep \<Rightarrow>
            (case map_of dep ''dCaS'' of
               Some v \<Rightarrow> TripSection.call_ahead_service s = v \<and> TripSection.booking_required s
                  \<and> TripSection.booking_deadline_minutes s = Some 120
             | None \<Rightarrow> TripSection.call_ahead_service s = JBool False
                  \<and> \<not> TripSection.booking_required s
                  \<and> TripSection.booking_deadline_minutes s = None)
        | _ \<Rightarrow> TripSection.call_ahead_service s = JBool False
                  \<and> \<not> TripSection.booking_required s
                  \<and> TripSection.booking_deadline_minutes s = None)"
  proof (cases "\<exists>dep. dget kvs ''dep'' JNull = JObj dep")
    case True
    then obtain dep where de: "dget kvs ''dep'' JNull = JObj dep" by blast
    have "call_ahead ?s0 = (case map_of dep ''dCaS'' of
        None \<Rightarrow> Inr ?s0
      | Some v \<Rightarrow>
          Inr (?s0\<lparr>TripSection.call_ahead_service := v, TripSection.booking_required := True,
                 TripSection.booking_deadline_minutes := Some 120\<rparr>))"
      by (rule call_ahead_dict) (simp add: new_section_def de)
    with ca kk fields de show ?thesis
      by (cases "map_of dep ''dCaS''") (auto simp: new_section_def)
  next
    case False
    then have "\<forall>dep. TripSection.departure ?s0 \<noteq> JObj dep" by (simp add: d0)
    from call_ahead_other [OF ca [unfolded kk] this] have "s1 = ?s0" .
    with fields False show ?thesis
      by (cases "dget kvs ''dep'' JNull") (auto simp: new_section_def)
  qed
  from dep ty mode kk third show ?thesis by blast
qed

lemma parse_trip_sections:
  assumes "parse_trip conn cd = Some trip"
  obtains c secs where "conn = JObj c" "py_iter (dget c ''secL'' (JList [])) = Inr secs"
    "each parse_section secs = Inr (Trip.sections trip)"
proof (cases conn)
  case (JObj c)
  from assms have "parse_trip_body conn = Inr trip"
    by (simp add: parse_trip_def split: sum.splits)
  then obtain secs ss where "py_iter (dget c ''secL'' (JList [])) = Inr secs"
    "each parse_section secs = Inr ss" "Trip.sections trip = ss"
    unfolding JObj parse_trip_body_def by (auto simp: bnd_eq_Inr)
  with JObj that show ?thesis by blast
qed (use assms in \<open>simp_all add: parse_trip_def parse_trip_body_def\<close>)

lemma parse_trip_section_nth:
  assumes "parse_trip (JObj c) cd = Some trip" "map_of c ''secL'' = Some (JList secs)"
    "i < length secs"
  shows "i < length (Trip.sections trip) \<and> parse_section (secs ! i) = Inr (Trip.sections trip ! i)"
proof -
  from assms(1) obtain c' secs' where "JObj c = JObj c'"
    "py_iter (dget c' ''secL'' (JList [])) = Inr secs'"
    "each parse_section secs' = Inr (Trip.sections trip)"
    by (rule parse_trip_sections)
  with assms(2) have e: "each parse_section secs = Inr (Trip.sections trip)"
    by (simp add: dget_def)
  from each_length [OF e] each_nth [OF e assms(3)] assms(3) show ?thesis by simp
qed

lemma set_polyline_indices_stops:
  "set_polyline_indices jny_data j = Inr j' \<Longrightarrow> Journey.stops j' = Journey.stops j"
  by (auto simp: set_polyline_indices_def bnd_eq_Inr split: if_splits)

lemma add_journey_messages_stops:
  "add_journey_messages jny_data j = Inr j' \<Longrightarrow> Journey.stops j' = Journey.stops j"
  by (auto simp: add_journey_messages_def bnd_eq_Inr)

lemma Journey_of_stops: "Journey_of jny_data = Inr j \<Longrightarrow> Journey.stops j = []"
  by (cases jny_data) auto

lemma teta_journey_stops: "teta_journey jny_data = Inr j \<Longrightarrow> Journey.stops j = []"
  by (auto simp: teta_journey_def bnd_eq_Inr
      dest!: set_polyline_indices_stops add_journey_messages_stops Journey_of_stops)

lemma mode_payload_teta:
  "mode_payload sec_data s = Inr s' \<Longrightarrow> TripSection.type s = TETA \<Longrightarrow>
   TripSection.journey s = None \<Longrightarrow> TripSection.journey s' = Some j \<Longrightarrow> Journey.stops j = []"
  by (auto simp: mode_payload_def bnd_eq_Inr split: if_splits dest: teta_journey_stops)

lemma parse_section_teta_stops:
  assumes "parse_section sec_data = Inr s" "TripSection.type s = TETA"
    "TripSection.journey s = Some j"
  shows "Journey.stops j = []"
proof -
  from assms(1) obtain kvs m mode s1 s2 ms where
    ca: "call_ahead (new_section mode (dget kvs ''dep'' JNull) (dget kvs ''arr'' JNull)) = Inr s1"
    and mp: "mode_payload sec_data s1 = Inr s2"
    and s: "s = s2\<lparr>TripSection.messages := TripSection.messages s2 @ ms\<rparr>"
    by (rule parse_section_steps)
  note f1 = call_ahead_frame [OF ca]
  note f2 = mode_payload_frame [OF mp]
  have "TripSection.type s1 = TETA" using f2 s assms(2) by simp
  moreover have "TripSection.journey s1 = None" using f1 by (simp add: new_section_def)
  moreover have "TripSection.journey s2 = Some j" using s assms(3) by simp
  ultimately show ?thesis using mode_payload_teta [OF mp] by blast
qed

text \<open>
  C5. A section of mode TETA whose departure record carries the key \<open>dCaS\<close> is
  assembled with \<open>booking_required = True\<close> and \<open>booking_deadline_minutes = 120\<close>,
  whatever else the connection holds: 120 is a literal of the assembler, no wire value
  enters it.
\<close>

theorem teta_booking_policy:
  assumes "parse_trip (JObj c) cd = Some trip"
    and "map_of c ''secL'' = Some (JList secs)"
    and "i < length secs"
    and "secs ! i = JObj kvs"
    and "map_of kvs ''type'' = Some (JStr ''TETA'')"
    and "map_of kvs ''dep'' = Some (JObj dep)"
    and "map_of dep ''dCaS'' = Some v"
  shows "i < length (Trip.sections trip)
    \<and> TripSection.type (Trip.sections trip ! i) = TETA
    \<and> TripSection.booking_required (Trip.sections trip ! i)
    \<and> TripSection.booking_deadline_minutes (Trip.sections trip ! i) = Some 120"
proof -
  from parse_trip_section_nth [OF assms(1-3)] assms(4)
  have i: "i < length (Trip.sections trip)"
    and p: "parse_section (JObj kvs) = Inr (Trip.sections trip ! i)" by simp_all
  from parse_section_call_ahead [OF p] assms(5-7) i show ?thesis
    by (auto simp: dget_def)
qed

lemmas assembler_defs =
  parse_trip_def parse_trip_body_def parse_section_def new_section_def call_ahead_def
  mode_payload_def teta_journey_def jny_journey_def set_polyline_indices_def
  add_journey_messages_def items_if_in_def opt_if_in_def dget_def

theorem teta_booking_policy_witness:
  "\<exists>trip.
     parse_trip
       (JObj [(''cid'', JStr ''C-1''),
              (''secL'', JList [JObj [(''type'', JStr ''TETA''),
                                      (''dep'', JObj [(''locX'', JInt 0), (''dCaS'', JBool True)]),
                                      (''arr'', JObj [(''locX'', JInt 1)]),
                                      (''jny'', JObj [(''jid'', JStr ''J-1'')])]])])
       CommonData_empty = Some trip
     \<and> TripSection.type (Trip.sections trip ! 0) = TETA
     \<and> TripSection.booking_required (Trip.sections trip ! 0)
     \<and> TripSection.booking_deadline_minutes (Trip.sections trip ! 0) = Some 120"
proof -
  let ?dep = "[(''locX'', JInt 0), (''dCaS'', JBool True)]"
  let ?sec = "[(''type'', JStr ''TETA''), (''dep'', JObj ?dep),
               (''arr'', JObj [(''locX'', JInt 1)]), (''jny'', JObj [(''jid'', JStr ''J-1'')])]"
  let ?c = "[(''cid'', JStr ''C-1''), (''secL'', JList [JObj ?sec])]"
  have "\<exists>trip. parse_trip (JObj ?c) CommonData_empty = Some trip"
    by (simp add: assembler_defs)
  then obtain trip where t: "parse_trip (JObj ?c) CommonData_empty = Some trip" ..
  have "0 < length (Trip.sections trip)
    \<and> TripSection.type (Trip.sections trip ! 0) = TETA
    \<and> TripSection.booking_required (Trip.sections trip ! 0)
    \<and> TripSection.booking_deadline_minutes (Trip.sections trip ! 0) = Some 120"
    by (rule teta_booking_policy [OF t, of "[JObj ?sec]" 0 ?sec ?dep "JBool True"]) simp_all
  with t show ?thesis by blast
qed

lemma each_set: "each f xs = Inr ys \<Longrightarrow> y \<in> set ys \<Longrightarrow> \<exists>x \<in> set xs. f x = Inr y"
  by (induction xs arbitrary: ys) (auto simp: bnd_eq_Inr)

text \<open>
  C8. For a section of any mode: \<open>booking_required\<close> is set exactly when the departure
  record is a dict with the key \<open>dCaS\<close>; then the deadline is 120 and
  \<open>call_ahead_service\<close> is the raw value under the key, whatever its truth value.
\<close>

theorem call_ahead_by_key_presence:
  assumes "parse_trip (JObj c) cd = Some trip"
    and "map_of c ''secL'' = Some (JList secs)"
    and "i < length secs"
    and "secs ! i = JObj kvs"
  shows "(TripSection.booking_required (Trip.sections trip ! i)
           \<longleftrightarrow> (\<exists>dep v. map_of kvs ''dep'' = Some (JObj dep) \<and> map_of dep ''dCaS'' = Some v))
    \<and> (\<forall>dep v. map_of kvs ''dep'' = Some (JObj dep) \<longrightarrow> map_of dep ''dCaS'' = Some v \<longrightarrow>
          TripSection.booking_required (Trip.sections trip ! i)
          \<and> TripSection.booking_deadline_minutes (Trip.sections trip ! i) = Some 120
          \<and> TripSection.call_ahead_service (Trip.sections trip ! i) = v)"
proof -
  from parse_trip_section_nth [OF assms(1-3)] assms(4)
  have p: "parse_section (JObj kvs) = Inr (Trip.sections trip ! i)" by simp
  note ca = parse_section_call_ahead [OF p]
  show ?thesis
  proof (cases "map_of kvs ''dep''")
    case None
    with ca show ?thesis by (simp add: dget_def)
  next
    case (Some d)
    show ?thesis
    proof (cases d)
      case (JObj dep)
      with Some ca show ?thesis by (cases "map_of dep ''dCaS''") (simp_all add: dget_def)
    qed (use Some ca in \<open>simp_all add: dget_def\<close>)
  qed
qed

theorem call_ahead_by_key_presence_witness:
  "\<exists>trip.
     parse_trip
       (JObj [(''secL'', JList [JObj [(''type'', JStr ''WALK''),
                                      (''dep'', JObj [(''dCaS'', JBool False)])],
                                JObj [(''type'', JStr ''TETA''),
                                      (''dep'', JObj [(''locX'', JInt 4)])]])])
       CommonData_empty = Some trip
     \<and> TripSection.type (Trip.sections trip ! 0) = WALK
     \<and> TripSection.booking_required (Trip.sections trip ! 0)
     \<and> TripSection.booking_deadline_minutes (Trip.sections trip ! 0) = Some 120
     \<and> TripSection.call_ahead_service (Trip.sections trip ! 0) = JBool False
     \<and> TripSection.type (Trip.sections trip ! 1) = TETA
     \<and> \<not> TripSection.booking_required (Trip.sections trip ! 1)"
proof -
  let ?dep = "[(''dCaS'', JBool False)]"
  let ?sec0 = "[(''type'', JStr ''WALK''), (''dep'', JObj ?dep)]"
  let ?sec1 = "[(''type'', JStr ''TETA''), (''dep'', JObj [(''locX'', JInt 4)])]"
  let ?c = "[(''secL'', JList [JObj ?sec0, JObj ?sec1])]"
  have ev: "\<exists>trip. parse_trip (JObj ?c) CommonData_empty = Some trip
      \<and> TripSection.type (Trip.sections trip ! 0) = WALK
      \<and> TripSection.type (Trip.sections trip ! 1) = TETA"
    by (simp add: assembler_defs)
  then obtain trip where t: "parse_trip (JObj ?c) CommonData_empty = Some trip"
    and m: "TripSection.type (Trip.sections trip ! 0) = WALK"
      "TripSection.type (Trip.sections trip ! 1) = TETA" by blast
  have a: "TripSection.booking_required (Trip.sections trip ! 0)
      \<and> TripSection.booking_deadline_minutes (Trip.sections trip ! 0) = Some 120
      \<and> TripSection.call_ahead_service (Trip.sections trip ! 0) = JBool False"
    using call_ahead_by_key_presence [OF t, of "[JObj ?sec0, JObj ?sec1]" 0 ?sec0] by simp
  have b: "\<not> TripSection.booking_required (Trip.sections trip ! 1)"
    using call_ahead_by_key_presence [OF t, of "[JObj ?sec0, JObj ?sec1]" 1 ?sec1] by simp
  from t m a b show ?thesis by blast
qed

text \<open>
  C9. Every assembled section of mode TETA that has a journey has a journey without
  stops: the TETA branch never reads \<open>stopL\<close>.
\<close>

theorem teta_journey_has_no_stops:
  assumes "parse_trip conn cd = Some trip"
    and "s \<in> set (Trip.sections trip)"
    and "TripSection.type s = TETA"
    and "TripSection.journey s = Some j"
  shows "Journey.stops j = []"
proof -
  from assms(1) obtain c secs where "each parse_section secs = Inr (Trip.sections trip)"
    by (rule parse_trip_sections)
  from each_set [OF this assms(2)] obtain sec_data where "parse_section sec_data = Inr s"
    by blast
  then show ?thesis using assms(3,4) by (rule parse_section_teta_stops)
qed

theorem teta_journey_has_no_stops_witness:
  "\<exists>trip j.
     parse_trip
       (JObj [(''secL'', JList [JObj [(''type'', JStr ''TETA''),
                (''jny'', JObj [(''jid'', JStr ''J-7''),
                                (''stopL'', JList [JObj [(''locX'', JInt 2)],
                                                   JObj [(''locX'', JInt 5)]])])]])])
       CommonData_empty = Some trip
     \<and> Trip.sections trip \<noteq> []
     \<and> TripSection.type (hd (Trip.sections trip)) = TETA
     \<and> TripSection.journey (hd (Trip.sections trip)) = Some j
     \<and> Journey.jid j = JStr ''J-7''
     \<and> Journey.stops j = []"
proof -
  let ?c = "JObj [(''secL'', JList [JObj [(''type'', JStr ''TETA''),
                (''jny'', JObj [(''jid'', JStr ''J-7''),
                                (''stopL'', JList [JObj [(''locX'', JInt 2)],
                                                   JObj [(''locX'', JInt 5)]])])]])]"
  have "\<exists>trip j. parse_trip ?c CommonData_empty = Some trip
      \<and> Trip.sections trip \<noteq> []
      \<and> TripSection.type (hd (Trip.sections trip)) = TETA
      \<and> TripSection.journey (hd (Trip.sections trip)) = Some j
      \<and> Journey.jid j = JStr ''J-7''"
    by (simp add: assembler_defs)
  then obtain trip j where t: "parse_trip ?c CommonData_empty = Some trip"
    and ne: "Trip.sections trip \<noteq> []"
    and m: "TripSection.type (hd (Trip.sections trip)) = TETA"
    and jj: "TripSection.journey (hd (Trip.sections trip)) = Some j"
    and jid: "Journey.jid j = JStr ''J-7''" by blast
  from ne have "hd (Trip.sections trip) \<in> set (Trip.sections trip)" by simp
  from teta_journey_has_no_stops [OF t this m jj] have "Journey.stops j = []" .
  with t ne m jj jid show ?thesis by blast
qed

section \<open>Properties of the resolver\<close>

lemma update_fresh: "k \<notin> fst ` set table \<Longrightarrow> AList.update k v table = table @ [(k, v)]"
  by (induction table) auto

lemma locations_loop_each:
  "\<forall>k \<in> fst ` set table. k < i \<Longrightarrow>
   locations_loop i xs table =
     bnd (each Location_from_api xs) (\<lambda>ls. Inr (table @ enumerate i ls))"
proof (induction xs arbitrary: i table)
  case Nil
  show ?case by simp
next
  case (Cons x xs)
  show ?case
  proof (cases "Location_from_api x")
    case (Inl e)
    then show ?thesis by simp
  next
    case (Inr l)
    from Cons.prems have fresh: "i \<notin> fst ` set table" by auto
    have keys: "\<forall>k \<in> fst ` set (table @ [(i, l)]). k < Suc i"
      using Cons.prems by auto
    show ?thesis
      using Inr Cons.IH [OF keys] update_fresh [OF fresh, of l]
      by (cases "each Location_from_api xs") simp_all
  qed
qed

lemma products_loop_each:
  "\<forall>k \<in> fst ` set table. k < i \<Longrightarrow>
   products_loop i xs table =
     bnd (each Product_from_api xs) (\<lambda>ps. Inr (table @ enumerate i ps))"
proof (induction xs arbitrary: i table)
  case Nil
  show ?case by simp
next
  case (Cons x xs)
  show ?case
  proof (cases "Product_from_api x")
    case (Inl e)
    then show ?thesis by simp
  next
    case (Inr l)
    from Cons.prems have fresh: "i \<notin> fst ` set table" by auto
    have keys: "\<forall>k \<in> fst ` set (table @ [(i, l)]). k < Suc i"
      using Cons.prems by auto
    show ?thesis
      using Inr Cons.IH [OF keys] update_fresh [OF fresh, of l]
      by (cases "each Product_from_api xs") simp_all
  qed
qed

lemma polylines_loop_each:
  "\<forall>k \<in> fst ` set table. k < i \<Longrightarrow>
   polylines_loop i xs table =
     bnd (each polyline_entry xs) (\<lambda>es. Inr (table @ stored i es))"
proof (induction xs arbitrary: i table)
  case Nil
  show ?case by simp
next
  case (Cons x xs)
  show ?case
  proof (cases "py_in ''crdEncYX'' x")
    case (Inl e)
    then have "polyline_entry x = Inl e" by (simp add: polyline_entry_def)
    with Inl show ?thesis by simp
  next
    case (Inr present)
    show ?thesis
    proof (cases present)
      case False
      with Inr have pe: "polyline_entry x = Inr None" by (simp add: polyline_entry_def)
      have keys: "\<forall>k \<in> fst ` set table. k < Suc i" using Cons.prems by auto
      show ?thesis
        using Inr False pe Cons.IH [OF keys]
        by (cases "each polyline_entry xs") simp_all
    next
      case True
      show ?thesis
      proof (cases "Polyline_of x")
        case (Inl e)
        with Inr True have "polyline_entry x = Inl e" by (simp add: polyline_entry_def)
        with Inr True Inl show ?thesis by simp
      next
        case pl: (Inr pl)
        with Inr True have pe: "polyline_entry x = Inr (Some pl)"
          by (simp add: polyline_entry_def)
        from Cons.prems have fresh: "i \<notin> fst ` set table" by auto
        have keys: "\<forall>k \<in> fst ` set (table @ [(i, pl)]). k < Suc i"
          using Cons.prems by auto
        show ?thesis
          using Inr True pl pe Cons.IH [OF keys] update_fresh [OF fresh, of pl]
          by (cases "each polyline_entry xs") simp_all
      qed
    qed
  qed
qed

lemma stored_keys: "fst ` set (stored i es) \<subseteq> {i..<i + length es}"
proof (induction es arbitrary: i)
  case Nil
  show ?case by simp
next
  case (Cons e es)
  from Cons.IH [of "Suc i"] show ?case by (cases e) auto
qed

lemma map_of_stored:
  "map_of (stored i es) k = (if i \<le> k \<and> k < i + length es then es ! (k - i) else None)"
proof (induction es arbitrary: i k)
  case Nil
  show ?case by auto
next
  case (Cons e es)
  consider "k < i" | "k = i" | "i < k" by linarith
  then show ?case
  proof cases
    case 1
    with Cons.IH [of "Suc i" k] show ?thesis by (cases e) simp_all
  next
    case 2
    have "map_of (stored (Suc i) es) i = None"
      using Cons.IH [of "Suc i" i] by simp
    with 2 show ?thesis by (cases e) simp_all
  next
    case 3
    then have d: "k - i = Suc (k - Suc i)" by simp
    have "(e # es) ! (k - i) = es ! (k - Suc i)" by (simp only: d nth_Cons_Suc)
    with 3 Cons.IH [of "Suc i" k] show ?thesis by (cases e) auto
  qed
qed

lemma stored_sorted: "sorted_wrt (<) (map fst (stored i es))"
proof (induction es arbitrary: i)
  case Nil
  show ?case by simp
next
  case (Cons e es)
  have "\<forall>k \<in> fst ` set (stored (Suc i) es). i < k"
    using stored_keys [of "Suc i" es] by auto
  with Cons.IH [of "Suc i"] show ?case by (cases e) auto
qed

lemma stored_all_Some: "stored i (map Some xs) = enumerate i xs"
  by (induction xs arbitrary: i) simp_all

lemma items_if_in_dict:
  "items_if_in k (JObj kvs) = (case map_of kvs k of None \<Rightarrow> Inr [] | Some v \<Rightarrow> py_iter v)"
  by (simp add: items_if_in_def split: option.splits)

lemma parse_common_data_tables:
  assumes "parse_common_data common = Inr cd"
  obtains locL ls prodL prs polyL es where
    "items_if_in ''locL'' common = Inr locL" "each Location_from_api locL = Inr ls"
    "CommonData.locations cd = enumerate 0 ls"
    "items_if_in ''prodL'' common = Inr prodL" "each Product_from_api prodL = Inr prs"
    "CommonData.products cd = enumerate 0 prs"
    "items_if_in ''polyL'' common = Inr polyL" "each polyline_entry polyL = Inr es"
    "CommonData.polylines cd = stored 0 es"
proof -
  have l: "locations_loop 0 xs [] = bnd (each Location_from_api xs) (\<lambda>ls. Inr (enumerate 0 ls))" for xs
    using locations_loop_each [of "[]" 0 xs] by simp
  have p: "products_loop 0 xs [] = bnd (each Product_from_api xs) (\<lambda>ls. Inr (enumerate 0 ls))" for xs
    using products_loop_each [of "[]" 0 xs] by simp
  have q: "polylines_loop 0 xs [] = bnd (each polyline_entry xs) (\<lambda>es. Inr (stored 0 es))" for xs
    using polylines_loop_each [of "[]" 0 xs] by simp
  from assms obtain locL locs prodL prods polyL polys where
    a: "items_if_in ''locL'' common = Inr locL" "locations_loop 0 locL [] = Inr locs"
       "items_if_in ''prodL'' common = Inr prodL" "products_loop 0 prodL [] = Inr prods"
       "items_if_in ''polyL'' common = Inr polyL" "polylines_loop 0 polyL [] = Inr polys"
    and b: "CommonData.locations cd = locs" "CommonData.products cd = prods"
       "CommonData.polylines cd = polys"
    unfolding parse_common_data_def bnd_eq_Inr by auto
  from a(2) obtain ls where "each Location_from_api locL = Inr ls" "locs = enumerate 0 ls"
    unfolding l bnd_eq_Inr by auto
  moreover from a(4) obtain prs where "each Product_from_api prodL = Inr prs" "prods = enumerate 0 prs"
    unfolding p bnd_eq_Inr by auto
  moreover from a(6) obtain es where "each polyline_entry polyL = Inr es" "polys = stored 0 es"
    unfolding q bnd_eq_Inr by auto
  ultimately show ?thesis using a b that by blast
qed

lemma polyline_entry_Some:
  "polyline_entry x = Inr (Some pl) \<longleftrightarrow> py_in ''crdEncYX'' x = Inr True \<and> Polyline_of x = Inr pl"
  by (auto simp: polyline_entry_def bnd_eq_Inr split: if_splits)

lemma polyline_entry_None:
  "polyline_entry x = Inr None \<longleftrightarrow> py_in ''crdEncYX'' x = Inr False"
  by (auto simp: polyline_entry_def bnd_eq_Inr split: if_splits)

lemma missing_list_field:
  assumes "k = ''locL'' \<or> k = ''prodL'' \<or> k = ''polyL''" "map_of kvs k = None"
  shows "parse_common_data (JObj ((k, JList []) # kvs)) = parse_common_data (JObj kvs)"
proof -
  have i: "items_if_in k' (JObj ((k, JList []) # kvs)) = items_if_in k' (JObj kvs)" for k'
    using assms(2) by (simp add: items_if_in_dict)
  have n: "k \<noteq> ''dirL''" "k \<noteq> ''layerL''" "k \<noteq> ''crdSysL''" using assms(1) by auto
  show ?thesis
    unfolding parse_common_data_def i using n by (simp add: dget_def)
qed

lemmas resolver_defs =
  parse_common_data_def items_if_in_def Location_from_api_def dget_def Coordinate_of_def
  decode_polyline_def int_truediv_def float_limit_def delta_of_def Color_if_in_def
  Icon_from_api_def DrawStyle_from_api_def CommonData_empty_def

lemma enumerate_fst: "map fst (enumerate i xs) = [i..<i + length xs]"
  by (simp add: enumerate_eq_zip)

lemma enumerate_snd: "map snd (enumerate i xs) = xs"
  by (simp add: enumerate_eq_zip)

lemma polylines_lookup:
  assumes "parse_common_data (JObj kvs) = Inr cd" "map_of kvs ''polyL'' = Some (JList polyL)"
  shows "sorted_wrt (<) (map fst (CommonData.polylines cd))
    \<and> (map_of (CommonData.polylines cd) i = Some pl \<longleftrightarrow>
         i < length polyL \<and> py_in ''crdEncYX'' (polyL ! i) = Inr True
         \<and> Polyline_of (polyL ! i) = Inr pl)"
proof -
  from assms(1) obtain polyL' es where
    a: "items_if_in ''polyL'' (JObj kvs) = Inr polyL'" "each polyline_entry polyL' = Inr es"
      "CommonData.polylines cd = stored 0 es"
    by (rule parse_common_data_tables)
  from a(1) assms(2) have [simp]: "polyL' = polyL" by (simp add: items_if_in_dict)
  from a(2) have len: "length es = length polyL" using each_length by fastforce
  have nth: "i < length polyL \<Longrightarrow> polyline_entry (polyL ! i) = Inr (es ! i)"
    using each_nth [OF a(2)] by simp
  have "map_of (stored 0 es) i = Some pl \<longleftrightarrow>
         i < length polyL \<and> py_in ''crdEncYX'' (polyL ! i) = Inr True
         \<and> Polyline_of (polyL ! i) = Inr pl"
  proof (cases "i < length polyL")
    case True
    with nth polyline_entry_Some [of "polyL ! i" pl] len show ?thesis
      by (simp add: map_of_stored)
  next
    case False
    with len show ?thesis by (simp add: map_of_stored)
  qed
  with a(3) stored_sorted [of 0 es] show ?thesis by simp
qed

text \<open>
  C4 (as amended). A polyline entry without the key \<open>crdEncYX\<close> is passed over by the
  loop: no error comes from it and nothing is stored, so after resolving the table has
  no entry at that entry's index.
\<close>

theorem polyline_without_geometry:
  "(map_of e ''crdEncYX'' = None \<longrightarrow>
      polylines_loop i (JObj e # rest) table = polylines_loop (Suc i) rest table)
   \<and> (parse_common_data (JObj kvs) = Inr cd \<and> map_of kvs ''polyL'' = Some (JList polyL)
        \<and> n < length polyL \<and> polyL ! n = JObj e \<and> map_of e ''crdEncYX'' = None \<longrightarrow>
      map_of (CommonData.polylines cd) n = None)"
proof (intro conjI impI)
  assume "map_of e ''crdEncYX'' = None"
  then show "polylines_loop i (JObj e # rest) table = polylines_loop (Suc i) rest table"
    by simp
next
  assume h: "parse_common_data (JObj kvs) = Inr cd \<and> map_of kvs ''polyL'' = Some (JList polyL)
        \<and> n < length polyL \<and> polyL ! n = JObj e \<and> map_of e ''crdEncYX'' = None"
  then have "py_in ''crdEncYX'' (polyL ! n) = Inr False" by simp
  with polylines_lookup [of kvs cd polyL n] h
  have "\<forall>pl. map_of (CommonData.polylines cd) n \<noteq> Some pl" by simp
  then show "map_of (CommonData.polylines cd) n = None" by (cases "map_of (CommonData.polylines cd) n") auto
qed

text \<open>
  C4 as stated fails: a common block whose only polyline entry carries drawing-style
  metadata resolves to the empty \<open>CommonData\<close>; index 0 is not in the polyline table.
\<close>

theorem polyline_without_geometry_counterexample:
  "parse_common_data (JObj [(''polyL'', JList [JObj [(''lDrawStyleX'', JInt 1)]])])
     = Inr CommonData_empty
   \<and> map_of (CommonData.polylines CommonData_empty) 0 = None"
  by (simp add: resolver_defs)

theorem polyline_without_geometry_witness:
  "\<exists>cd.
     polylines_loop 0 [JObj [(''lDrawStyleX'', JInt 0)], JObj [(''crdEncYX'', JStr ''??'')]] []
       = polylines_loop 1 [JObj [(''crdEncYX'', JStr ''??'')]] []
     \<and> parse_common_data
          (JObj [(''polyL'', JList [JObj [(''lDrawStyleX'', JInt 0)],
                                    JObj [(''crdEncYX'', JStr ''??'')]])]) = Inr cd
     \<and> map_of (CommonData.polylines cd) 0 = None
     \<and> map fst (CommonData.polylines cd) = [1]"
proof -
  let ?e = "[(''lDrawStyleX'', JInt 0)]"
  let ?ps = "[JObj ?e, JObj [(''crdEncYX'', JStr ''??'')]]"
  let ?kvs = "[(''polyL'', JList ?ps)]"
  have "\<exists>cd. parse_common_data (JObj ?kvs) = Inr cd \<and> map fst (CommonData.polylines cd) = [1]"
    by (simp add: resolver_defs decode_loop.simps varint_loop.simps)
  then obtain cd where r: "parse_common_data (JObj ?kvs) = Inr cd"
    and k: "map fst (CommonData.polylines cd) = [1]" by (elim exE conjE)
  note inst = polyline_without_geometry [of ?e 0 "[JObj [(''crdEncYX'', JStr ''??'')]]" "[]" ?kvs cd ?ps 0]
  have a: "polylines_loop 0 ?ps [] = polylines_loop 1 [JObj [(''crdEncYX'', JStr ''??'')]] []"
    using inst by simp
  have b: "map_of (CommonData.polylines cd) 0 = None"
    using inst r by simp
  from a r b k show ?thesis by (intro exI [of _ cd] conjI)
qed

text \<open>
  C6 (as amended). When resolving succeeds: the location and product tables hold one
  entry per list element, at indices \<open>0..N-1\<close> in input order; the polyline table holds
  exactly the entries with a geometry string, each at its own position, in increasing
  order; a missing list field gives an empty table and resolves like an empty list;
  resolving again gives the same \<open>CommonData\<close>.
\<close>

theorem resolver_positional_indices:
  assumes "parse_common_data (JObj kvs) = Inr cd"
  shows "(\<forall>locL. map_of kvs ''locL'' = Some (JList locL) \<longrightarrow>
            map fst (CommonData.locations cd) = [0..<length locL]
            \<and> each Location_from_api locL = Inr (map snd (CommonData.locations cd)))
    \<and> (\<forall>prodL. map_of kvs ''prodL'' = Some (JList prodL) \<longrightarrow>
            map fst (CommonData.products cd) = [0..<length prodL]
            \<and> each Product_from_api prodL = Inr (map snd (CommonData.products cd)))
    \<and> (\<forall>polyL. map_of kvs ''polyL'' = Some (JList polyL) \<longrightarrow>
            sorted_wrt (<) (map fst (CommonData.polylines cd))
            \<and> (\<forall>i pl. map_of (CommonData.polylines cd) i = Some pl \<longleftrightarrow>
                  i < length polyL \<and> py_in ''crdEncYX'' (polyL ! i) = Inr True
                  \<and> Polyline_of (polyL ! i) = Inr pl))
    \<and> (map_of kvs ''locL'' = None \<longrightarrow> CommonData.locations cd = [])
    \<and> (map_of kvs ''prodL'' = None \<longrightarrow> CommonData.products cd = [])
    \<and> (map_of kvs ''polyL'' = None \<longrightarrow> CommonData.polylines cd = [])
    \<and> (\<forall>k. (k = ''locL'' \<or> k = ''prodL'' \<or> k = ''polyL'') \<and> map_of kvs k = None \<longrightarrow>
          parse_common_data (JObj ((k, JList []) # kvs)) = Inr cd)
    \<and> (\<forall>cd'. parse_common_data (JObj kvs) = Inr cd' \<longrightarrow> cd' = cd)"
proof -
  from assms obtain locL ls prodL prs polyL es where
    a: "items_if_in ''locL'' (JObj kvs) = Inr locL" "each Location_from_api locL = Inr ls"
       "CommonData.locations cd = enumerate 0 ls"
       "items_if_in ''prodL'' (JObj kvs) = Inr prodL" "each Product_from_api prodL = Inr prs"
       "CommonData.products cd = enumerate 0 prs"
       "items_if_in ''polyL'' (JObj kvs) = Inr polyL" "each polyline_entry polyL = Inr es"
       "CommonData.polylines cd = stored 0 es"
    by (rule parse_common_data_tables)
  have l: "length ls = length locL" using each_length [OF a(2)] .
  have p: "length prs = length prodL" using each_length [OF a(5)] .
  have c1: "\<forall>xs. map_of kvs ''locL'' = Some (JList xs) \<longrightarrow>
            map fst (CommonData.locations cd) = [0..<length xs]
            \<and> each Location_from_api xs = Inr (map snd (CommonData.locations cd))"
    using a(1,2,3) l by (auto simp: items_if_in_dict enumerate_fst enumerate_snd)
  have c2: "\<forall>xs. map_of kvs ''prodL'' = Some (JList xs) \<longrightarrow>
            map fst (CommonData.products cd) = [0..<length xs]
            \<and> each Product_from_api xs = Inr (map snd (CommonData.products cd))"
    using a(4,5,6) p by (auto simp: items_if_in_dict enumerate_fst enumerate_snd)
  have c3: "\<forall>xs. map_of kvs ''polyL'' = Some (JList xs) \<longrightarrow>
            sorted_wrt (<) (map fst (CommonData.polylines cd))
            \<and> (\<forall>i pl. map_of (CommonData.polylines cd) i = Some pl \<longleftrightarrow>
                  i < length xs \<and> py_in ''crdEncYX'' (xs ! i) = Inr True
                  \<and> Polyline_of (xs ! i) = Inr pl)"
    using polylines_lookup [OF assms] by blast
  have c4: "map_of kvs ''locL'' = None \<longrightarrow> CommonData.locations cd = []"
    using a(1,2,3) by (auto simp: items_if_in_dict)
  have c5: "map_of kvs ''prodL'' = None \<longrightarrow> CommonData.products cd = []"
    using a(4,5,6) by (auto simp: items_if_in_dict)
  have c6: "map_of kvs ''polyL'' = None \<longrightarrow> CommonData.polylines cd = []"
    using a(7,8,9) by (auto simp: items_if_in_dict)
  have c7: "\<forall>k. (k = ''locL'' \<or> k = ''prodL'' \<or> k = ''polyL'') \<and> map_of kvs k = None \<longrightarrow>
          parse_common_data (JObj ((k, JList []) # kvs)) = Inr cd"
    using missing_list_field [of _ kvs] assms by simp
  have c8: "\<forall>cd'. parse_common_data (JObj kvs) = Inr cd' \<longrightarrow> cd' = cd"
    using assms by simp
  from c1 c2 c3 c4 c5 c6 c7 c8 show ?thesis by (intro conjI)
qed

text \<open>
  C6 as stated fails for polylines: of two entries, the first without geometry, only
  index 1 is assigned.
\<close>

theorem resolver_positional_indices_counterexample:
  "parse_common_data
     (JObj [(''polyL'', JList [JObj [(''lDrawStyleX'', JInt 0)],
                               JObj [(''crdEncYX'', JStr ''??'')]])])
   = Inr (CommonData_empty\<lparr>CommonData.polylines :=
       [(1, \<lparr>Polyline.encoded = JStr ''??'', Polyline.coordinates = [Coordinate_of 0 0],
            Polyline.location_refs = JList [], Polyline.draw_style_index = JNull,
            Polyline.delta = JBool True, Polyline.dimension = JInt 2,
            Polyline.encoding_start = JNull, Polyline.encoding_format = JNull\<rparr>)]\<rparr>)"
  by (simp add: resolver_defs decode_loop.simps varint_loop.simps)

theorem resolver_positional_indices_witness:
  "\<exists>cd.
     parse_common_data
       (JObj [(''locL'', JList [JObj [(''lid'', JStr ''A=1@L=8600626''), (''name'', JStr ''Valby'')],
                                JObj [(''lid'', JStr ''A=1@L=8600626''), (''name'', JStr ''Valby'')],
                                JObj [(''lid'', JStr ''A=1@L=8600703''), (''name'', JStr ''Flintholm'')]]),
              (''polyL'', JList [JObj [(''crdEncYX'', JStr ''??'')]])]) = Inr cd
     \<and> map fst (CommonData.locations cd) = [0, 1, 2]
     \<and> map (Location.name \<circ> snd) (CommonData.locations cd)
           = [JStr ''Valby'', JStr ''Valby'', JStr ''Flintholm'']
     \<and> CommonData.products cd = []
     \<and> map fst (CommonData.polylines cd) = [0]
     \<and> parse_common_data
       (JObj [(''prodL'', JList []),
              (''locL'', JList [JObj [(''lid'', JStr ''A=1@L=8600626''), (''name'', JStr ''Valby'')],
                                JObj [(''lid'', JStr ''A=1@L=8600626''), (''name'', JStr ''Valby'')],
                                JObj [(''lid'', JStr ''A=1@L=8600703''), (''name'', JStr ''Flintholm'')]]),
              (''polyL'', JList [JObj [(''crdEncYX'', JStr ''??'')]])]) = Inr cd"
proof -
  let ?locL = "[JObj [(''lid'', JStr ''A=1@L=8600626''), (''name'', JStr ''Valby'')],
                JObj [(''lid'', JStr ''A=1@L=8600626''), (''name'', JStr ''Valby'')],
                JObj [(''lid'', JStr ''A=1@L=8600703''), (''name'', JStr ''Flintholm'')]]"
  let ?kvs = "[(''locL'', JList ?locL), (''polyL'', JList [JObj [(''crdEncYX'', JStr ''??'')]])]"
  have "\<exists>cd. parse_common_data (JObj ?kvs) = Inr cd
      \<and> map (Location.name \<circ> snd) (CommonData.locations cd)
           = [JStr ''Valby'', JStr ''Valby'', JStr ''Flintholm'']
      \<and> map fst (CommonData.polylines cd) = [0]"
    by (simp add: resolver_defs decode_loop.simps varint_loop.simps)
  then obtain cd where r: "parse_common_data (JObj ?kvs) = Inr cd"
    and n: "map (Location.name \<circ> snd) (CommonData.locations cd)
           = [JStr ''Valby'', JStr ''Valby'', JStr ''Flintholm'']"
    and q: "map fst (CommonData.polylines cd) = [0]"
    by (elim exE conjE)
  note inst = resolver_positional_indices [OF r]
  have a: "map fst (CommonData.locations cd) = [0, 1, 2]"
    using inst by (simp add: upt_rec)
  have b: "CommonData.products cd = []"
    using inst by simp
  have c: "parse_common_data (JObj ((''prodL'', JList []) # ?kvs)) = Inr cd"
    using inst by simp
  from r a n b q c show ?thesis by (intro exI [of _ cd] conjI)
qed

section \<open>Properties of batch assembly\<close>





section \<open>Properties of the walking-route cache\<close>





lemma get_walking_details_offline:
  "net (request_counter w + 1) tok = None \<Longrightarrow>
   get_walking_details net tok w =
     Inr (([], [], None), w\<lparr>request_counter := request_counter w + 1, fetched := fetched w @ [tok]\<rparr>)"
  by (simp add: get_walking_details_def)

lemma fill_section_cases:
  assumes "fill_section net s (cd, w) = Inr (s', cd', w')"
  obtains
    (skip) "\<forall>k. \<not> bears k s" "s' = s" "cd' = cd" "w' = w"
  | (hit) k g r where "bears k s" "TripSection.gis s = Some g"
      "map_of (CommonData.walking_polylines cd) k = Some r"
      "s' = s\<lparr>TripSection.gis := Some (g\<lparr>GisInfo.polyline := Some r\<rparr>)\<rparr>" "cd' = cd" "w' = w"
  | (stored) k g r coords segs where "bears k s" "TripSection.gis s = Some g"
      "map_of (CommonData.walking_polylines cd) k = None"
      "get_walking_details net (GisInfo.ctx g) w = Inr ((coords, segs, Some r), w')"
      "s' = s\<lparr>TripSection.gis := Some (g\<lparr>GisInfo.polyline := Some r, GisInfo.segments := segs\<rparr>)\<rparr>"
      "cd' = cd\<lparr>CommonData.walking_polylines := AList.update k r (CommonData.walking_polylines cd)\<rparr>"
  | (failed) k g coords segs where "bears k s" "TripSection.gis s = Some g"
      "map_of (CommonData.walking_polylines cd) k = None"
      "get_walking_details net (GisInfo.ctx g) w = Inr ((coords, segs, None), w')"
      "s' = s" "cd' = cd"
proof (cases "TripSection.gis s")
  case None
  with assms have "\<forall>k. \<not> bears k s" "s' = s" "cd' = cd" "w' = w"
    by (simp_all add: fill_section_def bears_def)
  then show ?thesis by (rule skip)
next
  case (Some g)
  show ?thesis
  proof (cases "TripSection.type s = WALK \<and> py_truthy (GisInfo.ctx g)")
    case False
    with assms Some have "\<forall>k. \<not> bears k s" "s' = s" "cd' = cd" "w' = w"
      by (auto simp: fill_section_def bears_def)
    then show ?thesis by (rule skip)
  next
    case True
    with assms Some obtain k where k: "hash_key (GisInfo.ctx g) = Inr k"
      by (auto simp: fill_section_def bnd_eq_Inr)
    with True Some have b: "bears k s" by (simp add: bears_def)
    show ?thesis
    proof (cases "map_of (CommonData.walking_polylines cd) k")
      case (Some r)
      with assms \<open>TripSection.gis s = Some g\<close> True k
      have "s' = s\<lparr>TripSection.gis := Some (g\<lparr>GisInfo.polyline := Some r\<rparr>)\<rparr>" "cd' = cd" "w' = w"
        by (simp_all add: fill_section_def)
      with b \<open>TripSection.gis s = Some g\<close> Some show ?thesis by (rule hit)
    next
      case None
      have miss: "fill_section net s (cd, w) =
          bnd (get_walking_details net (GisInfo.ctx g) w) (\<lambda>((coords, segs, pl), w1).
             case pl of
               Some r \<Rightarrow>
                 Inr (s\<lparr>TripSection.gis :=
                          Some (g\<lparr>GisInfo.polyline := Some r, GisInfo.segments := segs\<rparr>)\<rparr>,
                      cd\<lparr>CommonData.walking_polylines :=
                           AList.update k r (CommonData.walking_polylines cd)\<rparr>,
                      w1)
             | None \<Rightarrow> Inr (s, cd, w1))"
        using \<open>TripSection.gis s = Some g\<close> True k None by (simp add: fill_section_def)
      obtain coords segs pl w1 where
        f: "get_walking_details net (GisInfo.ctx g) w = Inr ((coords, segs, pl), w1)"
      proof (cases "get_walking_details net (GisInfo.ctx g) w")
        case (Inl e)
        with miss assms show ?thesis by simp
      next
        case (Inr x)
        then show ?thesis using that by (cases x) auto
      qed
      have rest: "(case pl of
             Some r \<Rightarrow>
               Inr (s\<lparr>TripSection.gis :=
                        Some (g\<lparr>GisInfo.polyline := Some r, GisInfo.segments := segs\<rparr>)\<rparr>,
                    cd\<lparr>CommonData.walking_polylines :=
                         AList.update k r (CommonData.walking_polylines cd)\<rparr>,
                    w1)
           | None \<Rightarrow> Inr (s, cd, w1)) = (Inr (s', cd', w') :: error + _)"
        using assms unfolding miss f by simp
      show ?thesis
      proof (cases pl)
        case None
        with rest f have "get_walking_details net (GisInfo.ctx g) w = Inr ((coords, segs, None), w')"
          "s' = s" "cd' = cd" by simp_all
        with b \<open>TripSection.gis s = Some g\<close> \<open>map_of (CommonData.walking_polylines cd) k = None\<close>
        show ?thesis by (rule failed)
      next
        case (Some r)
        with rest f have "get_walking_details net (GisInfo.ctx g) w = Inr ((coords, segs, Some r), w')"
          "s' = s\<lparr>TripSection.gis := Some (g\<lparr>GisInfo.polyline := Some r, GisInfo.segments := segs\<rparr>)\<rparr>"
          "cd' = cd\<lparr>CommonData.walking_polylines := AList.update k r (CommonData.walking_polylines cd)\<rparr>"
          by simp_all
        with b \<open>TripSection.gis s = Some g\<close> \<open>map_of (CommonData.walking_polylines cd) k = None\<close>
        show ?thesis by (rule stored)
      qed
    qed
  qed
qed

lemma bears_unique: "bears k s \<Longrightarrow> bears k' s \<Longrightarrow> k' = k"
  by (auto simp: bears_def split: option.splits)

lemma bears_ctx: "bears k s \<Longrightarrow> TripSection.gis s = Some g \<Longrightarrow> hash_key (GisInfo.ctx g) = Inr k"
  by (simp add: bears_def)






lemma mode_payload_gis:
  "mode_payload sec_data s = Inr s' \<Longrightarrow> TripSection.gis s = None \<Longrightarrow>
   TripSection.gis s' = Some g \<Longrightarrow> GisInfo.polyline g = None \<and> GisInfo.segments g = []"
proof -
  have G: "GisInfo_of x = Inr g' \<Longrightarrow> GisInfo.polyline g' = None \<and> GisInfo.segments g' = []" for x g'
    by (cases x) auto
  show "mode_payload sec_data s = Inr s' \<Longrightarrow> TripSection.gis s = None \<Longrightarrow>
   TripSection.gis s' = Some g \<Longrightarrow> GisInfo.polyline g = None \<and> GisInfo.segments g = []"
    by (auto simp: mode_payload_def bnd_eq_Inr split: if_splits dest: G)
qed

lemma parse_section_no_geometry:
  assumes "parse_section sec_data = Inr s" "TripSection.gis s = Some g"
  shows "GisInfo.polyline g = None \<and> GisInfo.segments g = []"
proof -
  from assms(1) obtain kvs m mode s1 s2 ms where
    ca: "call_ahead (new_section mode (dget kvs ''dep'' JNull) (dget kvs ''arr'' JNull)) = Inr s1"
    and mp: "mode_payload sec_data s1 = Inr s2"
    and s: "s = s2\<lparr>TripSection.messages := TripSection.messages s2 @ ms\<rparr>"
    by (rule parse_section_steps)
  have "TripSection.gis s1 = None" using call_ahead_frame [OF ca] by (simp add: new_section_def)
  moreover have "TripSection.gis s2 = Some g" using s assms(2) by simp
  ultimately show ?thesis using mode_payload_gis [OF mp] by blast
qed

lemma parse_section_unfilled: "parse_section sec_data = Inr s \<Longrightarrow> unfilled s = s"
proof (cases "TripSection.gis s")
  case None
  then show ?thesis by (simp add: unfilled_def)
next
  case (Some g)
  assume "parse_section sec_data = Inr s"
  from parse_section_no_geometry [OF this Some] have "g\<lparr>GisInfo.polyline := None, GisInfo.segments := []\<rparr> = g"
    by simp
  with Some show ?thesis by (simp add: unfilled_def)
qed

lemma fill_section_hit:
  assumes "bears k s" "TripSection.gis s = Some g"
    "map_of (CommonData.walking_polylines cd) k = Some r"
  shows "fill_section net s (cd, w) =
     Inr (s\<lparr>TripSection.gis := Some (g\<lparr>GisInfo.polyline := Some r\<rparr>)\<rparr>, cd, w)"
  using assms by (simp add: fill_section_def bears_def)

text \<open>
  C10. On a cache hit the fill assigns \<open>gis.polyline\<close> and nothing else: the section's
  other fields, the \<open>CommonData\<close>, the request counter and the request log are
  unchanged. The segments stay as the assembler left them, which is empty.
\<close>

theorem cache_hit_attaches_polyline_only:
  assumes "bears k s" and "TripSection.gis s = Some g"
    and "map_of (CommonData.walking_polylines cd) k = Some r"
  shows "fill_section net s (cd, w) =
           Inr (s\<lparr>TripSection.gis := Some (g\<lparr>GisInfo.polyline := Some r\<rparr>)\<rparr>, cd, w)
    \<and> (parse_section sec_data = Inr s \<longrightarrow> GisInfo.segments g = [])"
  using fill_section_hit [OF assms] parse_section_no_geometry [of sec_data s g] assms(2) by simp

theorem cache_hit_attaches_polyline_only_witness:
  "\<exists>s g.
     parse_section (JObj [(''type'', JStr ''WALK''),
                          (''gis'', JObj [(''dist'', JInt 350), (''durS'', JStr ''000500''),
                                          (''ctx'', JStr ''G@F$A=1'')])]) = Inr s
     \<and> TripSection.gis s = Some g
     \<and> bears (KStr ''G@F$A=1'') s
     \<and> fill_section (\<lambda>n tok. None) s
          (CommonData_empty\<lparr>CommonData.walking_polylines := [(KStr ''G@F$A=1'', 0)]\<rparr>,
           \<lparr>request_counter = 1,
            heap = [\<lparr>Polyline.encoded = JStr ''??'', Polyline.coordinates = [Coordinate_of 0 0],
                     Polyline.location_refs = JList [], Polyline.draw_style_index = JNull,
                     Polyline.delta = JBool True, Polyline.dimension = JInt 2,
                     Polyline.encoding_start = JNull, Polyline.encoding_format = JNull\<rparr>],
            fetched = [JStr ''G@F$A=1'']\<rparr>)
        = Inr (s\<lparr>TripSection.gis := Some (g\<lparr>GisInfo.polyline := Some 0\<rparr>)\<rparr>,
               CommonData_empty\<lparr>CommonData.walking_polylines := [(KStr ''G@F$A=1'', 0)]\<rparr>,
               \<lparr>request_counter = 1,
                heap = [\<lparr>Polyline.encoded = JStr ''??'', Polyline.coordinates = [Coordinate_of 0 0],
                     Polyline.location_refs = JList [], Polyline.draw_style_index = JNull,
                     Polyline.delta = JBool True, Polyline.dimension = JInt 2,
                     Polyline.encoding_start = JNull, Polyline.encoding_format = JNull\<rparr>],
                fetched = [JStr ''G@F$A=1'']\<rparr>)
     \<and> GisInfo.segments g = []
     \<and> GisInfo.distance g = JInt 350"
proof -
  let ?sec = "JObj [(''type'', JStr ''WALK''),
                    (''gis'', JObj [(''dist'', JInt 350), (''durS'', JStr ''000500''),
                                    (''ctx'', JStr ''G@F$A=1'')])]"
  let ?cd = "CommonData_empty\<lparr>CommonData.walking_polylines := [(KStr ''G@F$A=1'', 0)]\<rparr>"
  let ?w = "\<lparr>request_counter = 1,
            heap = [\<lparr>Polyline.encoded = JStr ''??'', Polyline.coordinates = [Coordinate_of 0 0],
                     Polyline.location_refs = JList [], Polyline.draw_style_index = JNull,
                     Polyline.delta = JBool True, Polyline.dimension = JInt 2,
                     Polyline.encoding_start = JNull, Polyline.encoding_format = JNull\<rparr>],
            fetched = [JStr ''G@F$A=1'']\<rparr>"
  have "\<exists>s g. parse_section ?sec = Inr s \<and> TripSection.gis s = Some g
      \<and> bears (KStr ''G@F$A=1'') s \<and> GisInfo.distance g = JInt 350"
    by (simp add: assembler_defs bears_def)
  then obtain s g where p: "parse_section ?sec = Inr s" and g: "TripSection.gis s = Some g"
    and b: "bears (KStr ''G@F$A=1'') s" and d: "GisInfo.distance g = JInt 350"
    by (elim exE conjE)
  have c: "map_of (CommonData.walking_polylines ?cd) (KStr ''G@F$A=1'') = Some 0" by simp
  note inst = cache_hit_attaches_polyline_only [OF b g c, of "\<lambda>n tok. None" ?w ?sec]
  from inst have f: "fill_section (\<lambda>n tok. None) s (?cd, ?w)
      = Inr (s\<lparr>TripSection.gis := Some (g\<lparr>GisInfo.polyline := Some 0\<rparr>)\<rparr>, ?cd, ?w)"
    by (rule conjunct1)
  from inst p have e: "GisInfo.segments g = []" by simp
  from p g b f e d show ?thesis by (intro exI [of _ s] exI [of _ g] conjI)
qed


lemmas walking_defs =
  fill_section_def get_walking_details_def walking_svc_def res_segments_def con_segments_def
  sec_segments_def Coordinate_of_def decode_polyline_def int_truediv_def float_limit_def
  delta_of_def CommonData_empty_def bears_def attached_def count_key_def offline_def





lemma fill_section_degrade:
  assumes nv: "never_geometry net k"
    and fresh: "map_of (CommonData.walking_polylines cd) k = None"
    and run: "fill_section net s (cd, w) = Inr (s', cd', w')"
  shows "map_of (CommonData.walking_polylines cd') k = None
    \<and> (bears k s \<longrightarrow> s' = s) \<and> unfilled s' = unfilled s"
  using run
proof (cases rule: fill_section_cases)
  case skip
  with fresh show ?thesis by simp
next
  case (hit k1 g r)
  have "k1 \<noteq> k" using hit(3) fresh by auto
  then have "\<not> bears k s" using hit(1) bears_unique by blast
  with hit fresh show ?thesis by (simp add: unfilled_def)
next
  case (stored k1 g r coords segs)
  have hk: "hash_key (GisInfo.ctx g) = Inr k1" using stored(1,2) by (rule bears_ctx)
  have ne: "k1 \<noteq> k"
  proof
    assume "k1 = k"
    with nv hk stored(4) have "Some r = None" unfolding never_geometry_def by blast
    then show False by simp
  qed
  then have nb: "\<not> bears k s" using stored(1) bears_unique by blast
  have "map_of (CommonData.walking_polylines cd') k = None"
    using stored(6) ne fresh by (simp add: update_conv')
  with nb stored(2,5) show ?thesis by (simp add: unfilled_def)
next
  case (failed k1 g coords segs)
  with fresh show ?thesis by simp
qed

lemma fill_sections_degrade:
  assumes nv: "never_geometry net k"
  shows "map_of (CommonData.walking_polylines cd) k = None \<Longrightarrow>
    fill_sections net ss (cd, w) = Inr (ss', cd', w') \<Longrightarrow>
    map_of (CommonData.walking_polylines cd') k = None
    \<and> list_all2 (\<lambda>s s'. unfilled s' = unfilled s \<and> (bears k s \<longrightarrow> s' = s)) ss ss'"
proof (induction ss arbitrary: cd w ss')
  case Nil
  then show ?case by simp
next
  case (Cons s ss)
  from Cons.prems(2) obtain s1 cd1 w1 ss1 where
    a: "fill_section net s (cd, w) = Inr (s1, cd1, w1)"
    and b: "fill_sections net ss (cd1, w1) = Inr (ss1, cd', w')"
    and c: "ss' = s1 # ss1"
    by (auto simp: bnd_eq_Inr)
  note st = fill_section_degrade [OF nv Cons.prems(1) a]
  from st have f1: "map_of (CommonData.walking_polylines cd1) k = None" by blast
  from Cons.IH [OF f1 b] st c show ?case by simp
qed

lemma parse_trip_unfilled:
  assumes "parse_trip conn cd = Some t" "s \<in> set (Trip.sections t)"
  shows "unfilled s = s"
proof -
  from assms(1) obtain c secs where "each parse_section secs = Inr (Trip.sections t)"
    by (rule parse_trip_sections)
  from each_set [OF this assms(2)] obtain sec_data where "parse_section sec_data = Inr s"
    by blast
  then show ?thesis by (rule parse_section_unfilled)
qed

lemma parse_trip_any_common: "parse_trip conn cd1 = parse_trip conn cd"
  by (simp add: parse_trip_def)

lemma conns_loop_degrade:
  assumes nv: "never_geometry net k"
  shows "map_of (CommonData.walking_polylines cd) k = None \<Longrightarrow>
    conns_loop True net conns (trips, cd, w) = Inr (trips', cd', w') \<Longrightarrow>
    map_of (CommonData.walking_polylines cd') k = None
    \<and> (\<exists>new. trips' = trips @ new
          \<and> list_all2 (returned_as k) (List.map_filter (\<lambda>c. parse_trip c cd) conns) new)"
proof (induction conns arbitrary: trips cd w)
  case Nil
  then show ?case by (simp add: List.map_filter_simps)
next
  case (Cons conn conns)
  show ?case
  proof (cases "parse_trip conn cd")
    case None
    with Cons.prems(2) have "conns_loop True net conns (trips, cd, w) = Inr (trips', cd', w')"
      by simp
    from Cons.IH [OF Cons.prems(1) this] None show ?thesis
      by (simp add: List.map_filter_simps)
  next
    case (Some t)
    with Cons.prems(2) obtain ss cd1 w1 where
      a: "fill_sections net (Trip.sections t) (cd, w) = Inr (ss, cd1, w1)"
      and b: "conns_loop True net conns (trips @ [t\<lparr>Trip.sections := ss\<rparr>], cd1, w1)
              = Inr (trips', cd', w')"
      by (auto simp: bnd_eq_Inr)
    note f = fill_sections_degrade [OF nv Cons.prems(1) a]
    from f have f1: "map_of (CommonData.walking_polylines cd1) k = None" by blast
    from f have l: "list_all2 (\<lambda>s s'. unfilled s' = unfilled s \<and> (bears k s \<longrightarrow> s' = s))
        (Trip.sections t) ss" by blast
    have "list_all2 (kept_as k) (Trip.sections t) ss"
    proof (rule list.rel_mono_strong [OF l])
      fix s s' assume "s \<in> set (Trip.sections t)" "s' \<in> set ss"
        "unfilled s' = unfilled s \<and> (bears k s \<longrightarrow> s' = s)"
      with parse_trip_unfilled [OF Some] show "kept_as k s s'" by (simp add: kept_as_def)
    qed
    then have r: "returned_as k t (t\<lparr>Trip.sections := ss\<rparr>)" by (simp add: returned_as_def)
    from Cons.IH [OF f1 b] obtain new where
      n: "trips' = (trips @ [t\<lparr>Trip.sections := ss\<rparr>]) @ new"
      and m: "list_all2 (returned_as k) (List.map_filter (\<lambda>c. parse_trip c cd1) conns) new"
      and c: "map_of (CommonData.walking_polylines cd') k = None"
      by blast
    have "(\<lambda>c. parse_trip c cd1) = (\<lambda>c. parse_trip c cd)"
      by (rule ext) (rule parse_trip_any_common)
    with m have m': "list_all2 (returned_as k) (List.map_filter (\<lambda>c. parse_trip c cd) conns) new"
      by simp
    have "trips' = trips @ (t\<lparr>Trip.sections := ss\<rparr> # new)" using n by simp
    moreover have "list_all2 (returned_as k) (List.map_filter (\<lambda>c. parse_trip c cd) (conn # conns))
        (t\<lparr>Trip.sections := ss\<rparr> # new)"
      using Some r m' by (simp add: List.map_filter_simps)
    ultimately show ?thesis using c by blast
  qed
qed

lemma kept_as_bare:
  assumes "kept_as k s s'" "bears k s" "TripSection.gis s' = Some g'"
  shows "s' = s \<and> GisInfo.polyline g' = None \<and> GisInfo.segments g' = []"
proof -
  from assms(1,2) have e: "s' = s" by (simp add: kept_as_def)
  from assms(1) have "unfilled s' = s" by (simp add: kept_as_def)
  with e have u: "unfilled s' = s'" by simp
  from u assms(3) have "Some (g'\<lparr>GisInfo.polyline := None, GisInfo.segments := []\<rparr>) = Some g'"
    by (metis (no_types, lifting) TripSection.select_convs(5) TripSection.surjective
        TripSection.update_convs(5) option.simps(9) unfilled_def)
  then have "g'\<lparr>GisInfo.polyline := None, GisInfo.segments := []\<rparr> = g'" by simp
  then have "GisInfo.polyline g' = None \<and> GisInfo.segments g' = []"
    by (metis GisInfo.select_convs(5,6) GisInfo.surjective GisInfo.update_convs(5,6))
  with e show ?thesis by simp
qed

lemma fill_section_failed:
  assumes "bears k s" "TripSection.gis s = Some g"
    "map_of (CommonData.walking_polylines cd) k = None"
    "get_walking_details net (GisInfo.ctx g) w = Inr ((coords, segs, None), w1)"
  shows "fill_section net s (cd, w) = Inr (s, cd, w1)"
  using assms by (simp add: fill_section_def bears_def)

lemma fill_section_returns:
  assumes "answers net"
    and "case TripSection.gis s of None \<Rightarrow> True | Some g \<Rightarrow> hash_key (GisInfo.ctx g) \<noteq> Inl TypeError"
  shows "\<exists>r. fill_section net s st = Inr r"
proof -
  obtain cd w where st: "st = (cd, w)" by (cases st)
  show ?thesis
  proof (cases "TripSection.gis s")
    case None
    with st show ?thesis by (simp add: fill_section_def)
  next
    case (Some g)
    show ?thesis
    proof (cases "TripSection.type s = WALK \<and> py_truthy (GisInfo.ctx g)")
      case False
      with st Some show ?thesis by (auto simp: fill_section_def)
    next
      case True
      from assms(2) Some have "hash_key (GisInfo.ctx g) \<noteq> Inl TypeError" by simp
      then obtain k where k: "hash_key (GisInfo.ctx g) = Inr k"
        by (cases "GisInfo.ctx g") auto
      show ?thesis
      proof (cases "map_of (CommonData.walking_polylines cd) k")
        case (Some r)
        with st \<open>TripSection.gis s = Some g\<close> True k show ?thesis
          by (simp add: fill_section_def)
      next
        case None
        from assms(1) obtain res w' where
          "get_walking_details net (GisInfo.ctx g) w = Inr (res, w')"
          unfolding answers_def by blast
        moreover obtain coords segs pl where "res = (coords, segs, pl)" by (cases res)
        ultimately show ?thesis
          using st \<open>TripSection.gis s = Some g\<close> True k None
          by (cases pl) (simp_all add: fill_section_def)
      qed
    qed
  qed
qed

lemma fill_sections_returns:
  assumes "answers net"
  shows "\<forall>s \<in> set ss. case TripSection.gis s of None \<Rightarrow> True
            | Some g \<Rightarrow> hash_key (GisInfo.ctx g) \<noteq> Inl TypeError \<Longrightarrow>
         \<exists>r. fill_sections net ss st = Inr r"
proof (induction ss arbitrary: st)
  case Nil
  show ?case by simp
next
  case (Cons s ss)
  from Cons.prems have "case TripSection.gis s of None \<Rightarrow> True
      | Some g \<Rightarrow> hash_key (GisInfo.ctx g) \<noteq> Inl TypeError" by simp
  from fill_section_returns [OF assms this, of st] obtain s1 st1 where
    a: "fill_section net s st = Inr (s1, st1)" by (metis prod.exhaust)
  from Cons.prems have "\<forall>s \<in> set ss. case TripSection.gis s of None \<Rightarrow> True
            | Some g \<Rightarrow> hash_key (GisInfo.ctx g) \<noteq> Inl TypeError" by simp
  from Cons.IH [OF this, of st1] obtain ss1 st2 where
    b: "fill_sections net ss st1 = Inr (ss1, st2)" by (metis prod.exhaust)
  from a b show ?case by simp
qed

lemma conns_loop_returns:
  assumes "answers net"
  shows "hashable_tokens conns \<Longrightarrow> \<exists>r. conns_loop True net conns st = Inr r"
proof (induction conns arbitrary: st)
  case Nil
  obtain trips cd w where "st = (trips, cd, w)" using prod_cases3 by blast
  then show ?case by simp
next
  case (Cons conn conns)
  obtain trips cd w where st: "st = (trips, cd, w)" using prod_cases3 by blast
  from Cons.prems have rest: "hashable_tokens conns" by (simp add: hashable_tokens_def)
  show ?case
  proof (cases "parse_trip conn cd")
    case None
    with st Cons.IH [OF rest, of st] show ?thesis by simp
  next
    case (Some t)
    then have "parse_trip conn CommonData_empty = Some t" by (simp add: parse_trip_def)
    with Cons.prems have "\<forall>s \<in> set (Trip.sections t). case TripSection.gis s of None \<Rightarrow> True
            | Some g \<Rightarrow> hash_key (GisInfo.ctx g) \<noteq> Inl TypeError"
      by (simp add: hashable_tokens_def)
    from fill_sections_returns [OF assms this, of "(cd, w)"] obtain ss st1 where
      a: "fill_sections net (Trip.sections t) (cd, w) = Inr (ss, st1)" by (metis prod.exhaust)
    from Cons.IH [OF rest, of "(trips @ [t\<lparr>Trip.sections := ss\<rparr>], st1)"] st Some a
    show ?thesis by simp
  qed
qed

lemma offline_answers: "answers offline"
  by (simp add: answers_def get_walking_details_def offline_def)

text \<open>
  C7. A fetch that returns no polyline leaves the section and the \<open>CommonData\<close> as they
  were; a failed request is such a fetch. Over a whole result set, on a transport that
  never returns a polyline for \<open>k\<close>: nothing is cached under \<open>k\<close>, every assembled
  trip is returned, in order, and each section bearing \<open>k\<close> is returned exactly as
  assembled, with no polyline and no segments. The loop does return when the responses
  are readable and the tokens hashable.
\<close>

theorem fetch_failure_degrades:
  "(bears k s \<and> TripSection.gis s = Some g
      \<and> map_of (CommonData.walking_polylines cd) k = None
      \<and> get_walking_details net (GisInfo.ctx g) w = Inr ((coords, segs, None), w1)
     \<longrightarrow> fill_section net s (cd, w) = Inr (s, cd, w1))
   \<and> (net (request_counter w + 1) tok = None
     \<longrightarrow> get_walking_details net tok w =
          Inr (([], [], None),
               w\<lparr>request_counter := request_counter w + 1, fetched := fetched w @ [tok]\<rparr>))
   \<and> (never_geometry net k \<and> map_of (CommonData.walking_polylines cd0) k = None
      \<and> conns_loop True net conns ([], cd0, w0) = Inr (trips, cd', w')
     \<longrightarrow> map_of (CommonData.walking_polylines cd') k = None
        \<and> list_all2 (returned_as k) (List.map_filter (\<lambda>c. parse_trip c cd0) conns) trips)
   \<and> (kept_as k s0 s' \<and> bears k s0 \<and> TripSection.gis s' = Some g'
     \<longrightarrow> s' = s0 \<and> GisInfo.polyline g' = None \<and> GisInfo.segments g' = [])
   \<and> (answers net \<and> hashable_tokens conns
     \<longrightarrow> (\<exists>r. conns_loop True net conns st = Inr r))"
proof (intro conjI impI)
  assume "bears k s \<and> TripSection.gis s = Some g
      \<and> map_of (CommonData.walking_polylines cd) k = None
      \<and> get_walking_details net (GisInfo.ctx g) w = Inr ((coords, segs, None), w1)"
  then show "fill_section net s (cd, w) = Inr (s, cd, w1)"
    using fill_section_failed by blast
next
  assume "net (request_counter w + 1) tok = None"
  then show "get_walking_details net tok w =
          Inr (([], [], None),
               w\<lparr>request_counter := request_counter w + 1, fetched := fetched w @ [tok]\<rparr>)"
    by (rule get_walking_details_offline)
next
  assume h: "never_geometry net k \<and> map_of (CommonData.walking_polylines cd0) k = None
      \<and> conns_loop True net conns ([], cd0, w0) = Inr (trips, cd', w')"
  from h have a: "never_geometry net k" by (rule conjunct1)
  from h have b: "map_of (CommonData.walking_polylines cd0) k = None" by simp
  from h have c: "conns_loop True net conns ([], cd0, w0) = Inr (trips, cd', w')" by simp
  from conns_loop_degrade [OF a b c]
  show "map_of (CommonData.walking_polylines cd') k = None" by (rule conjunct1)
  from conns_loop_degrade [OF a b c]
  show "list_all2 (returned_as k) (List.map_filter (\<lambda>c. parse_trip c cd0) conns) trips"
    by simp
next
  assume h: "kept_as k s0 s' \<and> bears k s0 \<and> TripSection.gis s' = Some g'"
  then have r: "s' = s0 \<and> GisInfo.polyline g' = None \<and> GisInfo.segments g' = []"
    using kept_as_bare by blast
  from r show "s' = s0" by (rule conjunct1)
  from r show "GisInfo.polyline g' = None" by simp
  from r show "GisInfo.segments g' = []" by simp
next
  assume "answers net \<and> hashable_tokens conns"
  then show "\<exists>r. conns_loop True net conns st = Inr r"
    using conns_loop_returns by blast
qed

lemma offline_never_geometry: "never_geometry offline k"
  by (simp add: never_geometry_def get_walking_details_def offline_def)

theorem fetch_failure_degrades_witness:
  "\<exists>t s g.
     never_geometry offline (KStr ''T'') \<and> answers offline
     \<and> hashable_tokens
          [JObj [(''cid'', JStr ''1''),
                 (''secL'', JList [JObj [(''type'', JStr ''WALK''),
                     (''gis'', JObj [(''dist'', JInt 350), (''durS'', JStr ''000500''),
                                     (''ctx'', JStr ''T'')])]])]]
     \<and> parse_trip
          (JObj [(''cid'', JStr ''1''),
                 (''secL'', JList [JObj [(''type'', JStr ''WALK''),
                     (''gis'', JObj [(''dist'', JInt 350), (''durS'', JStr ''000500''),
                                     (''ctx'', JStr ''T'')])]])])
          CommonData_empty = Some t
     \<and> Trip.sections t = [s] \<and> TripSection.gis s = Some g \<and> bears (KStr ''T'') s
     \<and> GisInfo.distance g = JInt 350 \<and> GisInfo.duration_seconds g = JStr ''000500''
     \<and> GisInfo.polyline g = None \<and> GisInfo.segments g = []
     \<and> fill_section offline s (CommonData_empty, \<lparr>request_counter = 0, heap = [], fetched = []\<rparr>)
         = Inr (s, CommonData_empty, \<lparr>request_counter = 1, heap = [], fetched = [JStr ''T'']\<rparr>)
     \<and> conns_loop True offline
          [JObj [(''cid'', JStr ''1''),
                 (''secL'', JList [JObj [(''type'', JStr ''WALK''),
                     (''gis'', JObj [(''dist'', JInt 350), (''durS'', JStr ''000500''),
                                     (''ctx'', JStr ''T'')])]])]]
          ([], CommonData_empty, \<lparr>request_counter = 0, heap = [], fetched = []\<rparr>)
         = Inr ([t], CommonData_empty, \<lparr>request_counter = 1, heap = [], fetched = [JStr ''T'']\<rparr>)"
proof -
  let ?conn = "JObj [(''cid'', JStr ''1''),
                 (''secL'', JList [JObj [(''type'', JStr ''WALK''),
                     (''gis'', JObj [(''dist'', JInt 350), (''durS'', JStr ''000500''),
                                     (''ctx'', JStr ''T'')])]])]"
  let ?w0 = "\<lparr>request_counter = 0, heap = [], fetched = []\<rparr>"
  let ?w1 = "\<lparr>request_counter = 1, heap = [], fetched = [JStr ''T'']\<rparr>"
  let ?k = "KStr ''T''"
  have nv: "never_geometry offline ?k" by (rule offline_never_geometry)
  have "\<exists>t s g. parse_trip ?conn CommonData_empty = Some t \<and> Trip.sections t = [s]
      \<and> TripSection.gis s = Some g \<and> bears ?k s
      \<and> GisInfo.distance g = JInt 350 \<and> GisInfo.duration_seconds g = JStr ''000500''
      \<and> GisInfo.ctx g = JStr ''T''"
    by (simp add: assembler_defs bears_def)
  then obtain t s g where p: "parse_trip ?conn CommonData_empty = Some t"
    and ss: "Trip.sections t = [s]" and gg: "TripSection.gis s = Some g" and b: "bears ?k s"
    and d: "GisInfo.distance g = JInt 350" "GisInfo.duration_seconds g = JStr ''000500''"
    and c: "GisInfo.ctx g = JStr ''T''"
    by (elim exE conjE)
  have fresh: "map_of (CommonData.walking_polylines CommonData_empty) ?k = None"
    by (simp add: CommonData_empty_def)
  have off: "offline (request_counter ?w0 + 1) (JStr ''T'') = None" by (simp add: offline_def)
  have ti: "t\<lparr>Trip.sections := [s]\<rparr> = t" using ss by (cases t) auto
  have run: "conns_loop True offline [?conn] ([], CommonData_empty, ?w0)
      = Inr ([t], CommonData_empty, ?w1)"
    using p ss gg b c ti by (simp add: walking_defs)
  note inst = fetch_failure_degrades [where k = "KStr ''T''" and s = s and g = g
      and cd = CommonData_empty and net = offline and w = ?w0 and coords = "[]" and segs = "[]"
      and ?w1.0 = ?w1 and tok = "JStr ''T''" and ?cd0.0 = CommonData_empty and conns = "[?conn]"
      and ?w0.0 = ?w0 and trips = "[t]" and cd' = CommonData_empty and w' = ?w1
      and ?s0.0 = s and s' = s and g' = g and st = "([], CommonData_empty, ?w0)"]
  have an: "answers offline" by (rule offline_answers)
  have ht: "hashable_tokens [?conn]"
    using p ss gg c by (simp add: hashable_tokens_def)
  from inst an ht have "\<exists>r. conns_loop True offline [?conn] ([], CommonData_empty, ?w0) = Inr r"
    by blast
  from inst off have gw: "get_walking_details offline (JStr ''T'') ?w0 = Inr (([], [], None), ?w1)"
    by simp
  from inst gw b gg fresh c have fs: "fill_section offline s (CommonData_empty, ?w0)
      = Inr (s, CommonData_empty, ?w1)"
    by simp
  from inst nv fresh run have "list_all2 (returned_as ?k)
      (List.map_filter (\<lambda>c. parse_trip c CommonData_empty) [?conn]) [t]"
    by blast
  with p have "returned_as ?k t t" by (simp add: List.map_filter_simps)
  with ss have ka: "kept_as ?k s s" by (simp add: returned_as_def)
  from inst ka b gg have bare: "GisInfo.polyline g = None \<and> GisInfo.segments g = []"
    by blast
  from bare have b1: "GisInfo.polyline g = None" by (rule conjunct1)
  from bare have b2: "GisInfo.segments g = []" by (rule conjunct2)
  from nv an ht p ss gg b d b1 b2 fs run show ?thesis
    by (intro exI [of _ t] exI [of _ s] exI [of _ g] conjI)
qed

section \<open>Properties of batch assembly with the walking fill\<close>












end
